theory Spec2Isabelle
  imports Main "HOL-Library.Sublist"
begin

section \<open>Python strings\<close>

text \<open>
  A string is the list of its UTF-8 bytes: \<open>startswith\<close>, \<open>endswith\<close>, \<open>in\<close>, \<open>find\<close>
  and \<open>replace\<close> on code points are \<^const>\<open>prefix\<close>, \<^const>\<open>suffix\<close> and their like on the
  bytes. \<open>str.lower()\<close> folds the letters \<open>A\<close> to \<open>Z\<close> of an ASCII string; on a string
  with other characters it follows the Unicode tables, which are a parameter of the
  model (\<open>unicode_lower\<close>, a function of the whole string).
\<close>

definition lower_char :: "char \<Rightarrow> char" where
  "lower_char c =
     (case map_of (zip ''ABCDEFGHIJKLMNOPQRSTUVWXYZ'' ''abcdefghijklmnopqrstuvwxyz'') c of
        None \<Rightarrow> c
      | Some d \<Rightarrow> d)"

definition ascii_lower :: "string \<Rightarrow> string" where
  "ascii_lower s = map lower_char s"

definition is_ascii :: "string \<Rightarrow> bool" where
  "is_ascii s = list_all (\<lambda>c. (of_char c :: nat) < 128) s"

text \<open>
  \<open>s.replace(old, new)\<close>: every leftmost, non-overlapping occurrence of \<open>old\<close> is
  replaced. The counter of \<open>replace_aux\<close> is the number of characters of a matched
  occurrence still to be skipped. With an empty \<open>old\<close> Python inserts \<open>new\<close> before
  every character and at the end.
\<close>

fun replace_aux :: "string \<Rightarrow> string \<Rightarrow> nat \<Rightarrow> string \<Rightarrow> string" where
  "replace_aux old new k [] = []"
| "replace_aux old new (Suc k) (c # cs) = replace_aux old new k cs"
| "replace_aux old new 0 (c # cs) =
     (if prefix old (c # cs) then new @ replace_aux old new (length old - 1) cs
      else c # replace_aux old new 0 cs)"

definition str_replace :: "string \<Rightarrow> string \<Rightarrow> string \<Rightarrow> string" where
  "str_replace s old new =
     (if old = [] then new @ concat (map (\<lambda>c. c # new) s) else replace_aux old new 0 s)"

text \<open>\<open>sub in s\<close> on strings: \<open>sub\<close> occurs in \<open>s\<close> as a contiguous run.\<close>

fun contains :: "string \<Rightarrow> string \<Rightarrow> bool" where
  "contains [] sub = (sub = [])"
| "contains (c # cs) sub = (prefix sub (c # cs) \<or> contains cs sub)"

text \<open>\<open>s[s.find("@") + 1:]\<close>: \<open>find\<close> is \<open>-1\<close> when there is no \<open>@\<close>, and the slice
  is then the whole string.\<close>

definition after_first_at :: "string \<Rightarrow> string" where
  "after_first_at s =
     (if CHR ''@'' \<in> set s then tl (dropWhile (\<lambda>c. c \<noteq> CHR ''@'') s) else s)"

text \<open>The decimal digits of a number, as an f-string prints an integer id.\<close>

fun str_of_nat :: "nat \<Rightarrow> string" where
  "str_of_nat n =
     (if n < 10 then [char_of (48 + n)]
      else str_of_nat (n div 10) @ [char_of (48 + n mod 10)])"

declare str_of_nat.simps [simp del]

text \<open>
  Line boundaries. \<open>newline_at s\<close> is the length of the CR LF, CR or LF that \<open>s\<close>
  starts with, and 0 when it starts with none; \<open>boundary_at\<close> is the same for the
  boundaries of \<open>str.splitlines()\<close>, which are, besides those three, VT, FF, FS, GS, RS,
  NEL (U+0085), LS (U+2028) and PS (U+2029). \<open>marks\<close> goes through a string and
  replaces each boundary by a mark that holds its text (the counter is the number of
  characters of a boundary still to be skipped); \<open>split_marks\<close> cuts at the marks and
  gives each line with its terminator, which is empty for a last line without one.
\<close>

definition newline_at :: "string \<Rightarrow> nat" where
  "newline_at s =
     (if prefix [CHR 0x0D, CHR 0x0A] s then 2
      else if prefix [CHR 0x0D] s \<or> prefix [CHR 0x0A] s then 1
      else 0)"

definition boundary_at :: "string \<Rightarrow> nat" where
  "boundary_at s =
     (if newline_at s \<noteq> 0 then newline_at s
      else if prefix [CHR 0x0B] s \<or> prefix [CHR 0x0C] s \<or> prefix [CHR 0x1C] s
              \<or> prefix [CHR 0x1D] s \<or> prefix [CHR 0x1E] s then 1
      else if prefix [CHR 0xC2, CHR 0x85] s then 2
      else if prefix [CHR 0xE2, CHR 0x80, CHR 0xA8] s \<or> prefix [CHR 0xE2, CHR 0x80, CHR 0xA9] s
      then 3
      else 0)"

fun marks :: "(string \<Rightarrow> nat) \<Rightarrow> nat \<Rightarrow> string \<Rightarrow> (char + string) list" where
  "marks at k [] = []"
| "marks at (Suc k) (c # cs) = marks at k cs"
| "marks at 0 (c # cs) =
     (if at (c # cs) = 0 then Inl c # marks at 0 cs
      else Inr (take (at (c # cs)) (c # cs)) # marks at (at (c # cs) - 1) cs)"

fun split_marks :: "(char + string) list \<Rightarrow> (string \<times> string) list" where
  "split_marks [] = []"
| "split_marks (Inr e # ms) = ([], e) # split_marks ms"
| "split_marks (Inl c # ms) =
     (case split_marks ms of
        [] \<Rightarrow> [([c], [])]
      | (l, e) # ls \<Rightarrow> (c # l, e) # ls)"

text \<open>\<open>s.splitlines()\<close>: the lines of \<open>s\<close> without their terminators.\<close>

definition splitlines :: "string \<Rightarrow> string list" where
  "splitlines s = map fst (split_marks (marks boundary_at 0 s))"

section \<open>Messages\<close>

text \<open>
  A parsed message (\<open>email.message.EmailMessage\<close> under the policy \<open>SMTPUTF8\<close>) is its
  ordered header list and its body. A header keeps the spelling of its name and one of
  two kinds of value: the source text the parser found (with the line breaks of a
  folded header), or the value an assignment stored. Names are matched without regard
  to case (\<open>k.lower() == name.lower()\<close>). Reading \<open>msg[name]\<close> takes the first header of
  that name and renders its value through the policy (\<open>header_fetch_parse\<close>: an address
  header, for instance, reads with its display name requoted); the rendering is a
  parameter of the model. There is no header of that name when the result is None.
\<close>

datatype hvalue = Source string | Stored string

type_synonym header = "string \<times> hvalue"

record message =
  headers :: "header list"
  payload :: string

datatype py_error =
  IndexError | KeyError | ValueError | TypeError | AttributeError string | OSError
  | SMTPException

section \<open>Stores\<close>

text \<open>
  The rows of \<open>app.models\<close>, with the columns the handler reads and writes. A table is
  the list of its rows in insertion order; \<open>get_by\<close> is the first row that matches.
\<close>

record user =
  u_id :: nat
  u_email :: string
  u_name :: string
  u_can_create_new_alias :: bool

record mailbox =
  mb_id :: nat
  mb_email :: string

record gen_email =
  ge_id :: nat
  ge_email :: string
  ge_user_id :: nat
  ge_mailbox_id :: "nat option"
  ge_enabled :: bool
  ge_directory_id :: "nat option"
  ge_custom_domain_id :: "nat option"
  ge_automatic_creation :: bool

record forward_email =
  fe_id :: nat
  gen_email_id :: nat
  website_email :: string
  website_from :: string
  reply_email :: string

record forward_email_log =
  fl_id :: nat
  forward_id :: nat
  is_reply :: bool
  blocked :: bool

record custom_domain =
  cd_id :: nat
  cd_domain :: string
  cd_user_id :: nat
  catch_all :: bool
  dkim_verified :: bool

record directory =
  dir_id :: nat
  dir_name :: string
  dir_user_id :: nat

record database =
  users :: "user list"
  mailboxes :: "mailbox list"
  gen_emails :: "gen_email list"
  forward_emails :: "forward_email list"
  forward_email_logs :: "forward_email_log list"
  custom_domains :: "custom_domain list"
  directories :: "directory list"

text \<open>What the handler sends through the notifier: a \<open>send_email\<close> call (recipient,
  subject, plain text, HTML), or one of the two entitlement notices (owner, alias,
  directory name or domain).\<close>

datatype notification =
    Email string string string string
  | CannotCreateDirectoryAlias user string string
  | CannotCreateDomainAlias user string string

text \<open>One \<open>smtp.sendmail\<close> call: sender, recipient, raw message, mail options,
  recipient options.\<close>

record smtp_call =
  from_addr :: string
  to_addr :: string
  raw :: string
  call_mail_options :: "string list"
  call_rcpt_options :: "string list"

text \<open>
  The world a handler runs in: the database as the session sees it, the database as
  last committed, the notifications sent, the transport calls made, and the number of
  random strings drawn.
\<close>

record world =
  session :: database
  committed :: database
  outbox :: "notification list"
  smtp_log :: "smtp_call list"
  draws :: nat

text \<open>The envelope; \<open>content\<close> is the message data as \<open>handle_DATA\<close> has it after
  decoding.\<close>

record envelope =
  mail_from :: string
  rcpt_tos :: "string list"
  content :: string
  mail_options :: "string list"
  rcpt_options :: "string list"

text \<open>
  What the handler takes from its surroundings: the configuration constants, the
  address helpers of \<open>app.email_utils\<close> (not among the sources, so every theorem holds
  for whatever they compute), the random source, the template renderer, the DKIM
  signer, the standard library's lower-casing of non-ASCII strings, its message parser,
  its rendering of a header value that is read (given the header's name) and its
  serialiser, whether the connection to the outbound server can be made (\<open>SMTP(...)\<close>
  raises otherwise), and whether the transport accepts a call (\<open>sendmail\<close> raises
  otherwise).
\<close>

record env =
  EMAIL_DOMAIN :: string
  ALIAS_DOMAINS :: "string list"
  URL :: string
  get_email_name :: "string \<Rightarrow> string"
  get_email_part :: "string \<Rightarrow> string"
  get_email_domain_part :: "string \<Rightarrow> string"
  email_belongs_to_alias_domains :: "string \<Rightarrow> bool"
  random_string :: "nat \<Rightarrow> nat \<Rightarrow> string"
  render :: "string \<Rightarrow> (string \<times> string) list \<Rightarrow> string"
  dkim_sign :: "message \<Rightarrow> string \<Rightarrow> string"
  unicode_lower :: "string \<Rightarrow> string"
  parsestr :: "string \<Rightarrow> message"
  header_fetch :: "string \<Rightarrow> hvalue \<Rightarrow> string"
  as_string :: "message \<Rightarrow> string"
  smtp_connects :: bool
  sendmail_accepts :: "smtp_call \<Rightarrow> bool"

datatype outcome = Returned string | Raised py_error

text \<open>\<open>s.lower()\<close>.\<close>

definition str_lower :: "env \<Rightarrow> string \<Rightarrow> string" where
  "str_lower cfg s = (if is_ascii s then ascii_lower s else unicode_lower cfg s)"

definition header_is :: "env \<Rightarrow> string \<Rightarrow> header \<Rightarrow> bool" where
  "header_is cfg name h = (str_lower cfg (fst h) = str_lower cfg name)"

text \<open>The header \<open>msg[name]\<close> reads, as it is held, and \<open>msg[name]\<close> itself.\<close>

definition find_header :: "env \<Rightarrow> message \<Rightarrow> string \<Rightarrow> header option" where
  "find_header cfg msg name = find (header_is cfg name) (headers msg)"

definition get_header :: "env \<Rightarrow> message \<Rightarrow> string \<Rightarrow> string option" where
  "get_header cfg msg name =
     map_option (\<lambda>h. header_fetch cfg (fst h) (snd h)) (find_header cfg msg name)"

text \<open>
  \<open>Message.replace_header\<close>: the first header of that name gets the new value,
  keeping its place and the spelling of its name; KeyError when there is none. The
  policy takes the value in before it is stored (\<open>header_store_parse\<close>) and raises
  ValueError when it has more than one line.
\<close>

fun replace_first :: "env \<Rightarrow> string \<Rightarrow> string \<Rightarrow> header list \<Rightarrow> header list option" where
  "replace_first cfg name v [] = None"
| "replace_first cfg name v (h # hs) =
     (if header_is cfg name h then Some ((fst h, Stored v) # hs)
      else map_option ((#) h) (replace_first cfg name v hs))"

definition replace_header :: "env \<Rightarrow> message \<Rightarrow> string \<Rightarrow> string \<Rightarrow> py_error + message" where
  "replace_header cfg msg name v =
     (case replace_first cfg name v (headers msg) of
        None \<Rightarrow> Inl KeyError
      | Some hs \<Rightarrow>
          if length (splitlines v) > 1 then Inl ValueError
          else Inr (msg\<lparr>headers := hs\<rparr>))"

text \<open>Modelled from the spec: \<open>app.email_utils.delete_header\<close> is not among the
  sources. Section 4.2 has it "remove any existing" header of the name, section 9 as
  \<open>remove(key)\<close> under case-insensitive key lookup.\<close>

definition delete_header :: "env \<Rightarrow> message \<Rightarrow> string \<Rightarrow> message" where
  "delete_header cfg msg name =
     msg\<lparr>headers := filter (\<lambda>h. \<not> header_is cfg name h) (headers msg)\<rparr>"

text \<open>Modelled from the spec: \<open>app.email_utils.add_or_replace_header\<close> is not among
  the sources. Section 9 describes it as \<open>upsert(key, value)\<close>: the header is replaced
  where it stands, or added when the message has none of that name.\<close>

definition add_or_replace_header :: "env \<Rightarrow> message \<Rightarrow> string \<Rightarrow> string \<Rightarrow> message" where
  "add_or_replace_header cfg msg name v =
     (case replace_first cfg name v (headers msg) of
        None \<Rightarrow> msg\<lparr>headers := headers msg @ [(name, Stored v)]\<rparr>
      | Some hs \<Rightarrow> msg\<lparr>headers := hs\<rparr>)"

text \<open>Modelled from the spec: \<open>app.email_utils.add_dkim_signature\<close> is not among the
  sources. Section 6: the signer, "given a message and a signing domain, attach[es] a
  cryptographic signature header".\<close>

definition add_dkim_signature :: "env \<Rightarrow> message \<Rightarrow> string \<Rightarrow> message" where
  "add_dkim_signature cfg msg domain =
     msg\<lparr>headers := headers msg @ [(''DKIM-Signature'', Stored (dkim_sign cfg msg domain))]\<rparr>"

text \<open>Modelled from the spec: the queries and inserts of \<open>app.models\<close> are not among
  the sources. Section 6: get alias by address, get mapping by (alias, correspondent)
  or by reply token, create mapping, update display value, append log entry. A new row
  takes an id above every id of its table.\<close>

definition next_id :: "nat list \<Rightarrow> nat" where
  "next_id ids = Suc (fold max ids 0)"

definition GenEmail_get_by_email :: "database \<Rightarrow> string \<Rightarrow> gen_email option" where
  "GenEmail_get_by_email db a = find (\<lambda>g. ge_email g = a) (gen_emails db)"

definition GenEmail_get :: "database \<Rightarrow> nat \<Rightarrow> gen_email option" where
  "GenEmail_get db i = find (\<lambda>g. ge_id g = i) (gen_emails db)"

definition User_get :: "database \<Rightarrow> nat \<Rightarrow> user option" where
  "User_get db i = find (\<lambda>u. u_id u = i) (users db)"

definition Mailbox_get :: "database \<Rightarrow> nat \<Rightarrow> mailbox option" where
  "Mailbox_get db i = find (\<lambda>m. mb_id m = i) (mailboxes db)"

definition Directory_get_by_name :: "database \<Rightarrow> string \<Rightarrow> directory option" where
  "Directory_get_by_name db n = find (\<lambda>d. dir_name d = n) (directories db)"

definition CustomDomain_get_by_domain :: "database \<Rightarrow> string \<Rightarrow> custom_domain option" where
  "CustomDomain_get_by_domain db d = find (\<lambda>c. cd_domain c = d) (custom_domains db)"

definition ForwardEmail_get_by_pair :: "database \<Rightarrow> nat \<Rightarrow> string \<Rightarrow> forward_email option" where
  "ForwardEmail_get_by_pair db g c =
     find (\<lambda>f. gen_email_id f = g \<and> website_email f = c) (forward_emails db)"

definition ForwardEmail_get_by_reply_email :: "database \<Rightarrow> string \<Rightarrow> forward_email option" where
  "ForwardEmail_get_by_reply_email db r = find (\<lambda>f. reply_email f = r) (forward_emails db)"

definition GenEmail_create ::
  "database \<Rightarrow> string \<Rightarrow> nat \<Rightarrow> nat option \<Rightarrow> nat option \<Rightarrow> bool \<Rightarrow> gen_email \<times> database" where
  "GenEmail_create db a uid did cid auto =
     (let g = \<lparr>ge_id = next_id (map ge_id (gen_emails db)), ge_email = a, ge_user_id = uid,
               ge_mailbox_id = None, ge_enabled = True, ge_directory_id = did,
               ge_custom_domain_id = cid, ge_automatic_creation = auto\<rparr>
      in (g, db\<lparr>gen_emails := gen_emails db @ [g]\<rparr>))"

definition ForwardEmail_create ::
  "database \<Rightarrow> nat \<Rightarrow> string \<Rightarrow> string \<Rightarrow> string \<Rightarrow> forward_email \<times> database" where
  "ForwardEmail_create db g c f r =
     (let fe = \<lparr>fe_id = next_id (map fe_id (forward_emails db)), gen_email_id = g,
                website_email = c, website_from = f, reply_email = r\<rparr>
      in (fe, db\<lparr>forward_emails := forward_emails db @ [fe]\<rparr>))"

definition ForwardEmailLog_create ::
  "database \<Rightarrow> nat \<Rightarrow> bool \<Rightarrow> forward_email_log \<times> database" where
  "ForwardEmailLog_create db f r =
     (let l = \<lparr>fl_id = next_id (map fl_id (forward_email_logs db)), forward_id = f,
               is_reply = r, blocked = False\<rparr>
      in (l, db\<lparr>forward_email_logs := forward_email_logs db @ [l]\<rparr>))"

text \<open>An attribute assignment on a row held by the session writes the row of that
  id.\<close>

definition set_website_from :: "database \<Rightarrow> nat \<Rightarrow> string \<Rightarrow> database" where
  "set_website_from db i f =
     db\<lparr>forward_emails :=
          map (\<lambda>x. if fe_id x = i then x\<lparr>website_from := f\<rparr> else x) (forward_emails db)\<rparr>"

definition set_blocked :: "database \<Rightarrow> nat \<Rightarrow> database" where
  "set_blocked db i =
     db\<lparr>forward_email_logs :=
          map (\<lambda>x. if fl_id x = i then x\<lparr>blocked := True\<rparr> else x) (forward_email_logs db)\<rparr>"

text \<open>\<open>db.session.commit()\<close> makes the session's view the committed one; leaving the
  application context (\<open>db.session.remove()\<close>) drops what was not committed.\<close>

definition commit :: "world \<Rightarrow> world" where
  "commit w = w\<lparr>committed := session w\<rparr>"

definition teardown :: "world \<Rightarrow> world" where
  "teardown w = w\<lparr>session := committed w\<rparr>"

definition send_email :: "world \<Rightarrow> string \<Rightarrow> string \<Rightarrow> string \<Rightarrow> string \<Rightarrow> world" where
  "send_email w to_email subject plaintext html =
     w\<lparr>outbox := outbox w @ [Email to_email subject plaintext html]\<rparr>"

section \<open>The reply pipeline\<close>

text \<open>The delivery target (and the authorised sender of a reply): the alias's mailbox
  when \<open>mailbox_id\<close> is set (\<open>if gen_email.mailbox_id\<close>, which an id of 0 fails as
  None does), the owner's address otherwise. None stands for the attribute read on a
  missing row.\<close>

definition mailbox_email_of :: "database \<Rightarrow> gen_email \<Rightarrow> string option" where
  "mailbox_email_of db g =
     (case ge_mailbox_id g of
        None \<Rightarrow> map_option u_email (User_get db (ge_user_id g))
      | Some i \<Rightarrow>
          if i = 0 then map_option u_email (User_get db (ge_user_id g))
          else map_option mb_email (Mailbox_get db i))"

text \<open>The header rewriting and signing of a reply (\<open>handle_reply\<close>, from the removal
  of the signature header to the DKIM step). The message is changed in place, so it
  is returned with the error when a step raises.\<close>

definition reply_transform ::
  "env \<Rightarrow> database \<Rightarrow> forward_email \<Rightarrow> string \<Rightarrow> string \<Rightarrow> message \<Rightarrow> py_error option \<times> message" where
  "reply_transform cfg db forward_email alias alias_domain msg0 =
     (let msg1 = delete_header cfg msg0 ''DKIM-Signature'' in
      case replace_header cfg msg1 ''From'' alias of
        Inl e \<Rightarrow> (Some e, msg1)
      | Inr msg2 \<Rightarrow>
         (let msg3 = delete_header cfg msg2 ''Reply-To'' in
          case replace_header cfg msg3 ''To'' (website_email forward_email) of
            Inl e \<Rightarrow> (Some e, msg3)
          | Inr msg4 \<Rightarrow>
             (let unsubscribe_link =
                    URL cfg @ ''/dashboard/unsubscribe/'' @ str_of_nat (gen_email_id forward_email);
                  msg5 = add_or_replace_header cfg msg4 ''List-Unsubscribe''
                           (''<'' @ unsubscribe_link @ ''>'');
                  msg6 = add_or_replace_header cfg msg5 ''List-Unsubscribe-Post''
                           ''List-Unsubscribe=One-Click'';
                  msg7 = delete_header cfg msg6 ''Received-SPF''
              in if alias_domain \<in> set (ALIAS_DOMAINS cfg)
                 then (None, add_dkim_signature cfg msg7 alias_domain)
                 else (case CustomDomain_get_by_domain db alias_domain of
                         None \<Rightarrow> (Some (AttributeError ''dkim_verified''), msg7)
                       | Some custom_domain \<Rightarrow>
                           if dkim_verified custom_domain
                           then (None, add_dkim_signature cfg msg7 alias_domain)
                           else (None, msg7)))))"

text \<open>The two notifications of an unauthorised reply: to the mailbox, then to the
  sender of the envelope.\<close>

definition notify_unauthorised ::
  "env \<Rightarrow> world \<Rightarrow> user \<Rightarrow> string \<Rightarrow> string \<Rightarrow> string \<Rightarrow> string \<Rightarrow> world" where
  "notify_unauthorised cfg w usr alias sender mailbox_email reply_addr =
     (let w1 = send_email w mailbox_email
                 (''Reply from your alias '' @ alias @ '' only works from your mailbox'')
                 (render cfg ''transactional/reply-must-use-personal-email.txt''
                    [(''name'', u_name usr), (''alias'', alias), (''sender'', sender),
                     (''mailbox_email'', mailbox_email)])
                 (render cfg ''transactional/reply-must-use-personal-email.html''
                    [(''name'', u_name usr), (''alias'', alias), (''sender'', sender),
                     (''mailbox_email'', mailbox_email)])
      in send_email w1 sender
           (''Your email ('' @ sender @ '') is not allowed to send emails to '' @ reply_addr)
           (render cfg ''transactional/send-from-alias-from-unknown-sender.txt''
              [(''sender'', sender), (''reply_email'', reply_addr)])
           [])"

text \<open>The transport step of a reply: serialise, call \<open>sendmail\<close>, then log. The
  result of \<open>msg_raw.replace(...)\<close> is not bound in the source, and \<open>msg_raw\<close> itself
  is what \<open>sendmail\<close> receives.\<close>

definition reply_send ::
  "env \<Rightarrow> envelope \<Rightarrow> forward_email \<Rightarrow> string \<Rightarrow> string \<Rightarrow> message \<Rightarrow> world \<Rightarrow>
   outcome \<times> message \<times> world" where
  "reply_send cfg envelope forward_email alias reply_addr msg w =
     (let msg_raw = as_string cfg msg;
          _ = str_replace msg_raw reply_addr alias;
          call = \<lparr>from_addr = alias, to_addr = website_email forward_email, raw = msg_raw,
                  call_mail_options = mail_options envelope,
                  call_rcpt_options = rcpt_options envelope\<rparr>;
          w1 = w\<lparr>smtp_log := smtp_log w @ [call]\<rparr>
      in if \<not> sendmail_accepts cfg call then (Raised SMTPException, msg, w1)
         else
          (let created = ForwardEmailLog_create (session w1) (fe_id forward_email) True;
               w2 = commit (w1\<lparr>session := snd created\<rparr>)
           in (Returned ''250 Message accepted for delivery'', msg, w2)))"

text \<open>The part of \<open>handle_reply\<close> after the mapping is found: the alias and its
  domain verification, the authorised sender, then either the two notifications, or
  transformation and transport.\<close>

definition reply_to_mapping ::
  "env \<Rightarrow> envelope \<Rightarrow> message \<Rightarrow> string \<Rightarrow> forward_email \<Rightarrow> world \<Rightarrow>
   outcome \<times> message \<times> world" where
  "reply_to_mapping cfg envelope msg reply_addr forward_email w =
     (case GenEmail_get (session w) (gen_email_id forward_email) of
        None \<Rightarrow> (Raised (AttributeError ''email''), msg, w)
      | Some gen_email \<Rightarrow>
         (let alias = ge_email gen_email;
              alias_domain = after_first_at alias
          in if \<not> email_belongs_to_alias_domains cfg alias \<and>
                CustomDomain_get_by_domain (session w) alias_domain = None
             then (Returned ''550 alias unknown by SimpleLogin'', msg, w)
             else
              (case mailbox_email_of (session w) gen_email of
                 None \<Rightarrow> (Raised (AttributeError ''email''), msg, w)
               | Some mailbox_email \<Rightarrow>
                  if str_lower cfg (mail_from envelope) \<noteq> str_lower cfg mailbox_email
                  then
                   (case User_get (session w) (ge_user_id gen_email) of
                      None \<Rightarrow> (Raised (AttributeError ''name''), msg, w)
                    | Some usr \<Rightarrow>
                        (Returned ''550 ignored'', msg,
                         notify_unauthorised cfg w usr alias (mail_from envelope)
                           mailbox_email reply_addr))
                  else
                   (case reply_transform cfg (session w) forward_email alias
                           alias_domain msg of
                      (Some e, msg') \<Rightarrow> (Raised e, msg', w)
                    | (None, msg') \<Rightarrow>
                        reply_send cfg envelope forward_email alias reply_addr msg' w))))"

text \<open>\<open>MailHandler.handle_reply\<close>.\<close>

definition handle_reply :: "env \<Rightarrow> envelope \<Rightarrow> message \<Rightarrow> world \<Rightarrow> outcome \<times> message \<times> world" where
  "handle_reply cfg envelope msg w =
     (case rcpt_tos envelope of
        [] \<Rightarrow> (Raised IndexError, msg, w)
      | rcpt # _ \<Rightarrow>
         (let reply_addr = str_lower cfg rcpt in
          if \<not> suffix (EMAIL_DOMAIN cfg) reply_addr
          then (Returned ''550 wrong reply email'', msg, w)
          else
           (case ForwardEmail_get_by_reply_email (session w) reply_addr of
              None \<Rightarrow> (Returned ''550 wrong reply email'', msg, w)
            | Some forward_email \<Rightarrow>
                reply_to_mapping cfg envelope msg reply_addr forward_email w)))"

section \<open>The forward pipeline\<close>

text \<open>The separator of a directory alias: the first of \<open>/\<close>, \<open>+\<close>, \<open>#\<close> that the
  address holds.\<close>

definition directory_sep :: "string \<Rightarrow> char option" where
  "directory_sep alias =
     (if CHR ''/'' \<in> set alias then Some CHR ''/''
      else if CHR ''+'' \<in> set alias then Some CHR ''+''
      else if CHR ''#'' \<in> set alias then Some CHR ''#''
      else None)"

text \<open>Creation on the fly for a directory (\<open>handle_forward\<close>, first attempt). The
  result is the error raised, or the alias created if any, with the world as it then
  stands.\<close>

definition create_for_directory ::
  "env \<Rightarrow> string \<Rightarrow> world \<Rightarrow> (py_error + gen_email option) \<times> world" where
  "create_for_directory cfg alias w =
     (if email_belongs_to_alias_domains cfg alias then
        (case directory_sep alias of
           None \<Rightarrow> (Inr None, w)
         | Some sep \<Rightarrow>
            (let directory_name = takeWhile (\<lambda>c. c \<noteq> sep) alias in
             case Directory_get_by_name (session w) directory_name of
               None \<Rightarrow> (Inr None, w)
             | Some dir \<Rightarrow>
                (case User_get (session w) (dir_user_id dir) of
                   None \<Rightarrow> (Inl (AttributeError ''can_create_new_alias''), w)
                 | Some dir_user \<Rightarrow>
                    if u_can_create_new_alias dir_user then
                      (let created = GenEmail_create (session w) alias (dir_user_id dir)
                                       (Some (dir_id dir)) None False
                       in (Inr (Some (fst created)), commit (w\<lparr>session := snd created\<rparr>)))
                    else
                      (Inr None,
                       w\<lparr>outbox := outbox w @
                            [CannotCreateDirectoryAlias dir_user alias directory_name]\<rparr>))))
      else (Inr None, w))"

text \<open>Creation on the fly for a catch-all custom domain (second attempt).\<close>

definition create_for_catch_all ::
  "env \<Rightarrow> string \<Rightarrow> world \<Rightarrow> (py_error + gen_email option) \<times> world" where
  "create_for_catch_all cfg alias w =
     (let alias_domain = get_email_domain_part cfg alias in
      case CustomDomain_get_by_domain (session w) alias_domain of
        None \<Rightarrow> (Inr None, w)
      | Some custom_domain \<Rightarrow>
         if catch_all custom_domain then
           (case User_get (session w) (cd_user_id custom_domain) of
              None \<Rightarrow> (Inl (AttributeError ''can_create_new_alias''), w)
            | Some domain_user \<Rightarrow>
               if u_can_create_new_alias domain_user then
                 (let created = GenEmail_create (session w) alias (cd_user_id custom_domain)
                                  None (Some (cd_id custom_domain)) True
                  in (Inr (Some (fst created)), commit (w\<lparr>session := snd created\<rparr>)))
               else
                 (Inr None,
                  w\<lparr>outbox := outbox w @
                       [CannotCreateDomainAlias domain_user alias alias_domain]\<rparr>))
         else (Inr None, w))"

text \<open>The alias of a forward: the existing one, or one created on the fly; \<open>Inr None\<close>
  when neither applies (the handler then answers 510).\<close>

definition resolve_alias ::
  "env \<Rightarrow> string \<Rightarrow> world \<Rightarrow> (py_error + gen_email option) \<times> world" where
  "resolve_alias cfg alias w =
     (case GenEmail_get_by_email (session w) alias of
        Some g \<Rightarrow> (Inr (Some g), w)
      | None \<Rightarrow>
         (case create_for_directory cfg alias w of
            (Inl e, w1) \<Rightarrow> (Inl e, w1)
          | (Inr (Some g), w1) \<Rightarrow> (Inr (Some g), w1)
          | (Inr None, w1) \<Rightarrow> create_for_catch_all cfg alias w1))"

text \<open>The loop \<open>for _ in range(1000)\<close> that samples a reply address: the iterations
  left, the number of strings drawn so far, and the address last sampled. The loop
  leaves at the first address no mapping holds; when it runs out, the address last
  sampled stays bound.\<close>

fun sample_reply_email :: "env \<Rightarrow> database \<Rightarrow> nat \<Rightarrow> nat \<Rightarrow> string \<Rightarrow> string \<times> nat" where
  "sample_reply_email cfg db 0 k sampled = (sampled, k)"
| "sample_reply_email cfg db (Suc n) k sampled =
     (let reply_addr = ''reply+'' @ random_string cfg 30 k @ ''@'' @ EMAIL_DOMAIN cfg in
      if ForwardEmail_get_by_reply_email db reply_addr = None then (reply_addr, Suc k)
      else sample_reply_email cfg db n (Suc k) reply_addr)"

text \<open>The mapping of (alias, correspondent): the existing one, its From value
  brought up to date, or a new one under a sampled reply address.\<close>

definition get_or_create_forward_email ::
  "env \<Rightarrow> gen_email \<Rightarrow> string \<Rightarrow> string \<Rightarrow> world \<Rightarrow> forward_email \<times> world" where
  "get_or_create_forward_email cfg g website_addr from_header w =
     (case ForwardEmail_get_by_pair (session w) (ge_id g) website_addr of
        Some fe \<Rightarrow>
          if website_from fe \<noteq> from_header
          then (fe\<lparr>website_from := from_header\<rparr>,
                commit (w\<lparr>session := set_website_from (session w) (fe_id fe) from_header\<rparr>))
          else (fe, w)
      | None \<Rightarrow>
         (let sampled = sample_reply_email cfg (session w) 1000 (draws w) [];
              created = ForwardEmail_create (session w) (ge_id g) website_addr from_header
                          (fst sampled)
          in (fst created, commit (w\<lparr>session := snd created, draws := snd sampled\<rparr>))))"

text \<open>The header rewriting and signing of a forward. The address helpers are
  defined on header values: a message without From makes them raise.\<close>

definition forward_transform ::
  "env \<Rightarrow> gen_email \<Rightarrow> forward_email \<Rightarrow> string \<Rightarrow> message \<Rightarrow> py_error option \<times> message" where
  "forward_transform cfg g forward_email website_addr msg0 =
     (let msg1 = add_or_replace_header cfg msg0 ''X-SimpleLogin-Type'' ''Forward'';
          msg2 = delete_header cfg msg1 ''Reply-To''
      in case get_header cfg msg2 ''From'' of
           None \<Rightarrow> (Some TypeError, msg2)
         | Some f \<Rightarrow>
            (let from_header =
                   get_email_name cfg f
                   @ (if get_email_name cfg f = [] then [] else '' - '')
                   @ str_replace website_addr ''@'' '' at ''
                   @ '' <'' @ reply_email forward_email @ ''>''
             in case replace_header cfg msg2 ''From'' from_header of
                  Inl e \<Rightarrow> (Some e, msg2)
                | Inr msg3 \<Rightarrow>
                   (let unsubscribe_link =
                          URL cfg @ ''/dashboard/unsubscribe/'' @ str_of_nat (ge_id g);
                        msg4 = add_or_replace_header cfg msg3 ''List-Unsubscribe''
                                 (''<'' @ unsubscribe_link @ ''>'');
                        msg5 = add_or_replace_header cfg msg4 ''List-Unsubscribe-Post''
                                 ''List-Unsubscribe=One-Click''
                    in (None, add_dkim_signature cfg msg5 (EMAIL_DOMAIN cfg)))))"

text \<open>The part of \<open>handle_forward\<close> after the alias is resolved: delivery target,
  mapping, log entry, then either transformation and transport, or the blocked
  flag.\<close>

definition forward_to_alias ::
  "env \<Rightarrow> envelope \<Rightarrow> message \<Rightarrow> gen_email \<Rightarrow> world \<Rightarrow> outcome \<times> message \<times> world" where
  "forward_to_alias cfg envelope msg g w =
     (case mailbox_email_of (session w) g of
        None \<Rightarrow> (Raised (AttributeError ''email''), msg, w)
      | Some mailbox_email \<Rightarrow>
         (case get_header cfg msg ''From'' of
            None \<Rightarrow> (Raised TypeError, msg, w)
          | Some from_header \<Rightarrow>
             (let website_addr = get_email_part cfg from_header;
                  mapping = get_or_create_forward_email cfg g website_addr from_header w;
                  forward_email = fst mapping;
                  created = ForwardEmailLog_create (session (snd mapping))
                              (fe_id forward_email) False;
                  forward_log = fst created;
                  w1 = (snd mapping)\<lparr>session := snd created\<rparr>
              in if ge_enabled g then
                   (case forward_transform cfg g forward_email website_addr msg of
                      (Some e, msg') \<Rightarrow> (Raised e, msg', w1)
                    | (None, msg') \<Rightarrow>
                       (let msg_raw = as_string cfg msg';
                            call = \<lparr>from_addr = reply_email forward_email,
                                    to_addr = mailbox_email, raw = msg_raw,
                                    call_mail_options = mail_options envelope,
                                    call_rcpt_options = rcpt_options envelope\<rparr>;
                            w2 = w1\<lparr>smtp_log := smtp_log w1 @ [call]\<rparr>
                        in if \<not> sendmail_accepts cfg call
                           then (Raised SMTPException, msg', w2)
                           else (Returned ''250 Message accepted for delivery'', msg',
                                 commit w2)))
                 else
                   (Returned ''250 Message accepted for delivery'', msg,
                    commit (w1\<lparr>session := set_blocked (session w1) (fl_id forward_log)\<rparr>)))))"

text \<open>\<open>MailHandler.handle_forward\<close>.\<close>

definition handle_forward :: "env \<Rightarrow> envelope \<Rightarrow> message \<Rightarrow> world \<Rightarrow> outcome \<times> message \<times> world" where
  "handle_forward cfg envelope msg w =
     (case rcpt_tos envelope of
        [] \<Rightarrow> (Raised IndexError, msg, w)
      | rcpt # _ \<Rightarrow>
         (let alias = str_lower cfg rcpt in
          case resolve_alias cfg alias w of
            (Inl e, w1) \<Rightarrow> (Raised e, msg, w1)
          | (Inr None, w1) \<Rightarrow> (Returned ''510 Email not exist'', msg, w1)
          | (Inr (Some g), w1) \<Rightarrow> forward_to_alias cfg envelope msg g w1))"

section \<open>The entry point\<close>

text \<open>The handlers run inside an application context, whose teardown removes the
  session; the status (or the error) is what \<open>handle_DATA\<close> hands back.\<close>

definition with_app_context :: "outcome \<times> message \<times> world \<Rightarrow> outcome \<times> world" where
  "with_app_context r = (fst r, teardown (snd (snd r)))"

text \<open>\<open>MailHandler.handle_DATA\<close>: the connection to the outbound server is opened
  (\<open>SMTP(POSTFIX_SERVER, 25)\<close> raises an \<open>OSError\<close> when it cannot be), the content is
  parsed, the first recipient is lower-cased, and its prefix selects the handler.\<close>

definition handle_DATA :: "env \<Rightarrow> envelope \<Rightarrow> world \<Rightarrow> outcome \<times> world" where
  "handle_DATA cfg envelope w =
     (let message_data = content envelope in
      if \<not> smtp_connects cfg then (Raised OSError, w)
      else
       (let msg = parsestr cfg message_data in
        case rcpt_tos envelope of
          [] \<Rightarrow> (Raised IndexError, w)
        | rcpt # _ \<Rightarrow>
           (let rcpt_to = str_lower cfg rcpt in
            if prefix ''reply+'' rcpt_to \<or> prefix ''ra+'' rcpt_to
            then with_app_context (handle_reply cfg envelope msg w)
            else with_app_context (handle_forward cfg envelope msg w))))"

section \<open>A concrete deployment\<close>

text \<open>Modelled from the spec: the address helpers \<open>get_email_name\<close>, \<open>get_email_part\<close>,
  \<open>get_email_domain_part\<close> and \<open>email_belongs_to_alias_domains\<close> of \<open>app.email_utils\<close>
  are not among the sources. Section 4.1 has the correspondent's address extracted
  from the From header with the display name stripped and the domain part extracted
  from an address; section 8 gives \<open>Jane Doe\<close> and \<open>jane@biz.example\<close> as the display
  name and the address of \<open>"Jane Doe" <jane@biz.example>\<close>. A header value without
  angle brackets is a bare address with no display name. For the reserved domains the
  reply pipeline has the alias's domain "one of the service's reserved domains", and
  the source's comment at the call (\<open>handle_reply\<close>) has the alias "end with one of the
  ALIAS_DOMAINS": the helper tests whether the address ends with \<open>@\<close> and one of the
  domains.\<close>

definition unquote :: "string \<Rightarrow> string" where
  "unquote s =
     rev (dropWhile (\<lambda>c. c = CHR '' '' \<or> c = CHR 0x22)
       (rev (dropWhile (\<lambda>c. c = CHR '' '' \<or> c = CHR 0x22) s)))"

definition spec_get_email_name :: "string \<Rightarrow> string" where
  "spec_get_email_name f =
     (if CHR ''<'' \<in> set f then unquote (takeWhile (\<lambda>c. c \<noteq> CHR ''<'') f) else [])"

definition spec_get_email_part :: "string \<Rightarrow> string" where
  "spec_get_email_part f =
     (if CHR ''<'' \<in> set f
      then takeWhile (\<lambda>c. c \<noteq> CHR ''>'') (tl (dropWhile (\<lambda>c. c \<noteq> CHR ''<'') f))
      else f)"

definition spec_get_email_domain_part :: "string \<Rightarrow> string" where
  "spec_get_email_domain_part a = after_first_at a"

definition spec_email_belongs_to_alias_domains :: "string list \<Rightarrow> string \<Rightarrow> bool" where
  "spec_email_belongs_to_alias_domains domains a =
     list_ex (\<lambda>d. suffix (''@'' @ d) a) domains"

text \<open>
  The standard library's parser (\<open>Parser(policy=SMTPUTF8).parsestr\<close>), for a message
  of one part. The text is cut into lines at CR LF, CR and LF, each line keeping its
  terminator. The header block is the run of leading lines that start with a header
  name and a colon (the name made of the printable ASCII characters but the colon),
  with \<open>From \<close>, or with a blank; an empty line after the block is dropped, any other
  line starts the body.
\<close>

definition keepends :: "string \<Rightarrow> string list" where
  "keepends s = map (\<lambda>le. fst le @ snd le) (split_marks (marks newline_at 0 s))"

definition is_blank :: "char \<Rightarrow> bool" where
  "is_blank c = (c = CHR '' '' \<or> c = CHR 0x09)"

definition name_char :: "char \<Rightarrow> bool" where
  "name_char c = (0x21 \<le> (of_char c :: nat) \<and> (of_char c :: nat) \<le> 0x7E \<and> c \<noteq> CHR '':'')"

definition is_header_line :: "string \<Rightarrow> bool" where
  "is_header_line l =
     (prefix ''From '' l \<or> (l \<noteq> [] \<and> is_blank (hd l)) \<or> prefix '':'' (dropWhile name_char l))"

definition strip_eol :: "string \<Rightarrow> string" where
  "strip_eol v = rev (dropWhile (\<lambda>c. c = CHR 0x0D \<or> c = CHR 0x0A) (rev v))"

text \<open>A header and its source lines become the name before the first colon, and the
  rest of the first line without its leading blanks, followed by the continuation
  lines, without the line break at the end (\<open>header_source_parse\<close>).\<close>

definition source_header :: "string \<times> string list \<Rightarrow> header" where
  "source_header nl =
     (case snd nl of
        [] \<Rightarrow> (fst nl, Source [])
      | l # ls \<Rightarrow>
          (fst nl,
           Source (strip_eol (dropWhile is_blank (tl (dropWhile (\<lambda>c. c \<noteq> CHR '':'') l))
                              @ concat ls))))"

definition flush :: "(string \<times> string list) option \<Rightarrow> header list" where
  "flush lastheader = (case lastheader of None \<Rightarrow> [] | Some nl \<Rightarrow> [source_header nl])"

text \<open>
  The loop of \<open>_parse_headers\<close> over the lines of the header block: whether the line
  is the first one, the header being collected with its lines, and the lines left.
  The result is the headers and the line pushed back to the body. A continuation
  line joins the header being collected and is dropped when there is none; a line
  starting with \<open>From \<close> is dropped, unless it is the last of the block and not the
  first, where it goes back to the body; a line starting with a colon is dropped.
\<close>

fun parse_headers ::
  "bool \<Rightarrow> (string \<times> string list) option \<Rightarrow> string list \<Rightarrow> header list \<times> string list" where
  "parse_headers first lastheader [] = (flush lastheader, [])"
| "parse_headers first lastheader (l # ls) =
     (if is_blank (hd l) then
        (case lastheader of
           None \<Rightarrow> parse_headers False None ls
         | Some nl \<Rightarrow> parse_headers False (Some (fst nl, snd nl @ [l])) ls)
      else if prefix ''From '' l then
        (if first then parse_headers False None ls
         else if ls = [] then (flush lastheader, [l])
         else (case parse_headers False None ls of
                 (hs, back) \<Rightarrow> (flush lastheader @ hs, back)))
      else if prefix '':'' l then
        (case parse_headers False None ls of (hs, back) \<Rightarrow> (flush lastheader @ hs, back))
      else
        (case parse_headers False (Some (takeWhile (\<lambda>c. c \<noteq> CHR '':'') l, [l])) ls of
           (hs, back) \<Rightarrow> (flush lastheader @ hs, back)))"

definition policy_parsestr :: "string \<Rightarrow> message" where
  "policy_parsestr s =
     (let ls = keepends s;
          block = takeWhile is_header_line ls;
          rest = dropWhile is_header_line ls;
          body = (case rest of
                    [] \<Rightarrow> []
                  | l # others \<Rightarrow> if newline_at l \<noteq> 0 then others else rest)
      in case parse_headers True None block of
           (hs, back) \<Rightarrow> \<lparr>headers = hs, payload = concat (back @ body)\<rparr>)"

text \<open>
  The rendering of a header value that is read (\<open>header_fetch_parse\<close>): the value
  without its line breaks; for an address header holding one mailbox, the address
  alone when there is no display name, and otherwise the display name, its blanks
  collapsed, in quotes when it holds one of the special characters, followed by the
  address in angle brackets.
\<close>

definition unfold_value :: "string \<Rightarrow> string" where
  "unfold_value v = filter (\<lambda>c. c \<noteq> CHR 0x0D \<and> c \<noteq> CHR 0x0A) v"

definition strip_blanks :: "string \<Rightarrow> string" where
  "strip_blanks s = rev (dropWhile is_blank (rev (dropWhile is_blank s)))"

fun collapse_blanks :: "string \<Rightarrow> string" where
  "collapse_blanks [] = []"
| "collapse_blanks [c] = (if is_blank c then [] else [c])"
| "collapse_blanks (c # d # cs) =
     (if is_blank c then
        (if is_blank d then collapse_blanks (d # cs) else CHR '' '' # collapse_blanks (d # cs))
      else c # collapse_blanks (d # cs))"

definition is_special :: "char \<Rightarrow> bool" where
  "is_special c = (c \<in> set (''()<>[]:;@,.'' @ [CHR 0x5C, CHR 0x22]))"

definition render_address :: "string \<Rightarrow> string" where
  "render_address v =
     (if CHR ''<'' \<in> set v then
        (let name = strip_blanks (takeWhile (\<lambda>c. c \<noteq> CHR ''<'') v);
             addr = takeWhile (\<lambda>c. c \<noteq> CHR ''>'') (tl (dropWhile (\<lambda>c. c \<noteq> CHR ''<'') v));
             disp = (if 2 \<le> length name \<and> hd name = CHR 0x22 \<and> last name = CHR 0x22
                     then butlast (tl name)
                     else collapse_blanks (dropWhile is_blank name))
         in if disp = [] then addr
            else if list_ex is_special disp
            then [CHR 0x22] @ disp @ [CHR 0x22] @ '' <'' @ addr @ ''>''
            else disp @ '' <'' @ addr @ ''>'')
      else strip_blanks v)"

definition address_headers :: "string list" where
  "address_headers =
     [''from'', ''to'', ''cc'', ''bcc'', ''sender'', ''reply-to'', ''resent-from'',
      ''resent-to'', ''resent-cc'', ''resent-bcc'', ''resent-sender'']"

definition value_text :: "hvalue \<Rightarrow> string" where
  "value_text hv = (case hv of Source v \<Rightarrow> unfold_value v | Stored v \<Rightarrow> v)"

definition policy_header_fetch :: "string \<Rightarrow> hvalue \<Rightarrow> string" where
  "policy_header_fetch name hv =
     (if ascii_lower name \<in> set address_headers then render_address (value_text hv)
      else value_text hv)"

text \<open>
  The standard library's serialiser (\<open>msg.as_string()\<close>), for a message of one part
  and header words that fit a line. Lines end with CR LF and hold at most 78
  characters. A stored value is folded: it goes after the name on the first line
  when it fits there, else on a line of its own when it fits there, and else word by
  word, a new line starting with the blank before the word that did not fit. A source
  value is written as the parser found it, line by line, unless one of its lines is
  too long, where it is folded as a stored value is. In the body every line break
  becomes CR LF.
\<close>

definition crlf :: string where
  "crlf = [CHR 0x0D, CHR 0x0A]"

fun tokens :: "string \<Rightarrow> string list" where
  "tokens [] = []"
| "tokens (c # cs) =
     (case tokens cs of
        [] \<Rightarrow> [[c]]
      | t # ts \<Rightarrow> if is_blank c = is_blank (hd t) then (c # t) # ts else [c] # t # ts)"

text \<open>One part is placed on the current line when it fits; otherwise it starts a new
  line, together with the blank the current line ends with, when there is such a
  blank or the part starts with one; otherwise it stays on the current line.\<close>

definition place :: "string list \<times> string \<Rightarrow> string \<Rightarrow> string list \<times> string" where
  "place st t =
     (let full = fst st; cur = snd st in
      if length cur + length t \<le> 78 then (full, cur @ t)
      else if cur \<noteq> [] \<and> is_blank (last cur) then (full @ [butlast cur], last cur # t)
      else if t \<noteq> [] \<and> is_blank (hd t) then (full @ [cur], t)
      else (full, cur @ t))"

definition fold_header :: "string \<Rightarrow> string \<Rightarrow> string" where
  "fold_header name v =
     (if v = [] then name @ '':'' @ crlf
      else
       (let start = ([], name @ '': '');
            st = (if length v + 1 \<le> 78 then place start v else fold (\<lambda>t st. place st t) (tokens v) start)
        in concat (map (\<lambda>l. l @ crlf) (fst st @ [snd st]))))"

fun join_crlf :: "string list \<Rightarrow> string" where
  "join_crlf [] = []"
| "join_crlf [l] = l"
| "join_crlf (l # ls) = l @ crlf @ join_crlf ls"

definition write_header :: "header \<Rightarrow> string" where
  "write_header h =
     (case snd h of
        Stored v \<Rightarrow> fold_header (fst h) v
      | Source v \<Rightarrow>
          (let ls = splitlines v in
           if (ls \<noteq> [] \<and> length (hd ls) + length (fst h) + 2 > 78)
              \<or> list_ex (\<lambda>l. length l > 78) (tl ls)
           then fold_header (fst h) (concat ls)
           else fst h @ '': '' @ join_crlf ls @ crlf))"

definition write_body :: "string \<Rightarrow> string" where
  "write_body b =
     concat (map (\<lambda>le. fst le @ (if snd le = [] then [] else crlf))
               (split_marks (marks newline_at 0 b)))"

definition policy_as_string :: "message \<Rightarrow> string" where
  "policy_as_string m = concat (map write_header (headers m)) @ crlf @ write_body (payload m)"

text \<open>A relay on \<open>relay.example\<close>. Its random source always draws the same letters,
  its renderer returns the template's name, its signer the signing domain, its
  outbound server is reachable and its transport accepts every call. Its strings
  are ASCII ones, and a string with other characters is left as it is by its
  lower-casing.\<close>

definition relay_env :: env where
  "relay_env =
     \<lparr>EMAIL_DOMAIN = ''relay.example'',
      ALIAS_DOMAINS = [''relay.example''],
      URL = ''https://app.relay.example'',
      get_email_name = spec_get_email_name,
      get_email_part = spec_get_email_part,
      get_email_domain_part = spec_get_email_domain_part,
      email_belongs_to_alias_domains = spec_email_belongs_to_alias_domains [''relay.example''],
      random_string = (\<lambda>n k. replicate n CHR ''a''),
      render = (\<lambda>template args. template),
      dkim_sign = (\<lambda>msg domain. domain),
      unicode_lower = (\<lambda>s. s),
      parsestr = policy_parsestr,
      header_fetch = policy_header_fetch,
      as_string = policy_as_string,
      smtp_connects = True,
      sendmail_accepts = (\<lambda>call. True)\<rparr>"

text \<open>One user, John, with the alias \<open>x@relay.example\<close> (enabled), the alias
  \<open>off@relay.example\<close> (disabled), and one mapping: Jane of \<open>biz.example\<close> wrote to
  \<open>x@relay.example\<close> and replies to \<open>abcd1234@relay.example\<close>.\<close>

definition john :: user where
  "john = \<lparr>u_id = 1, u_email = ''john@home.example'', u_name = ''John'',
           u_can_create_new_alias = True\<rparr>"

definition alias_x :: gen_email where
  "alias_x = \<lparr>ge_id = 1, ge_email = ''x@relay.example'', ge_user_id = 1, ge_mailbox_id = None,
              ge_enabled = True, ge_directory_id = None, ge_custom_domain_id = None,
              ge_automatic_creation = False\<rparr>"

definition alias_off :: gen_email where
  "alias_off = \<lparr>ge_id = 2, ge_email = ''off@relay.example'', ge_user_id = 1,
                ge_mailbox_id = None, ge_enabled = False, ge_directory_id = None,
                ge_custom_domain_id = None, ge_automatic_creation = False\<rparr>"

definition jane_mapping :: forward_email where
  "jane_mapping = \<lparr>fe_id = 1, gen_email_id = 1, website_email = ''jane@biz.example'',
                   website_from = ''Jane <jane@biz.example>'',
                   reply_email = ''abcd1234@relay.example''\<rparr>"

definition relay_db :: database where
  "relay_db = \<lparr>users = [john], mailboxes = [], gen_emails = [alias_x, alias_off],
               forward_emails = [jane_mapping], forward_email_logs = [],
               custom_domains = [], directories = []\<rparr>"

definition relay_world :: world where
  "relay_world = \<lparr>session = relay_db, committed = relay_db, outbox = [], smtp_log = [],
                  draws = 0\<rparr>"

text \<open>A message of Jane, as the parser gives it, and its envelope for
  \<open>x@relay.example\<close>.\<close>

definition jane_from :: string where
  "jane_from = [CHR 0x22] @ ''Jane Doe'' @ [CHR 0x22] @ '' <jane@biz.example>''"

definition jane_msg :: message where
  "jane_msg = \<lparr>headers = [(''From'', Source jane_from), (''To'', Source ''x@relay.example''),
                            (''Subject'', Source ''Hello'')],
               payload = ''Hi John''\<rparr>"

definition to_x :: envelope where
  "to_x = \<lparr>mail_from = ''bounce@biz.example'', rcpt_tos = [''x@relay.example''],
           content = policy_as_string jane_msg, mail_options = [], rcpt_options = []\<rparr>"

section \<open>Observations\<close>

text \<open>The address a notification goes to.\<close>

definition recipient :: "notification \<Rightarrow> string" where
  "recipient n =
     (case n of
        Email to_email _ _ _ \<Rightarrow> to_email
      | CannotCreateDirectoryAlias u _ _ \<Rightarrow> u_email u
      | CannotCreateDomainAlias u _ _ \<Rightarrow> u_email u)"

text \<open>The value of the first header of a name, as the message holds it.\<close>

definition held_value :: "env \<Rightarrow> message \<Rightarrow> string \<Rightarrow> hvalue option" where
  "held_value cfg msg name = map_option snd (find_header cfg msg name)"

text \<open>A message of Jane to the disabled alias.\<close>

definition to_off :: envelope where
  "to_off = \<lparr>mail_from = ''bounce@biz.example'', rcpt_tos = [''off@relay.example''],
             content = policy_as_string jane_msg, mail_options = [], rcpt_options = []\<rparr>"

text \<open>A message whose From header is a bare address.\<close>

definition bare_msg :: message where
  "bare_msg = \<lparr>headers = [(''From'', Source ''jane@biz.example''),
                            (''To'', Source ''x@relay.example'')],
               payload = ''Hi''\<rparr>"

text \<open>The (alias id, correspondent address) pairs of the mappings, in table order, and
  the invariant that no pair has two mappings.\<close>

definition mapping_keys :: "database \<Rightarrow> (nat \<times> string) list" where
  "mapping_keys db = map (\<lambda>f. (gen_email_id f, website_email f)) (forward_emails db)"

definition mapping_inv :: "database \<Rightarrow> bool" where
  "mapping_inv db = distinct (mapping_keys db)"

text \<open>The invariant on what the session sees and on what is committed.\<close>

definition store_inv :: "world \<Rightarrow> bool" where
  "store_inv w = (mapping_inv (session w) \<and> mapping_inv (committed w))"

text \<open>Two messages of a new correspondent, Bob, under two display names, and the
  world after each has been forwarded to \<open>x@relay.example\<close>.\<close>

definition bob_msg :: message where
  "bob_msg = \<lparr>headers = [(''From'', Source ''Bob <bob@shop.example>''),
                           (''To'', Source ''x@relay.example'')],
              payload = ''Your order''\<rparr>"

definition bob_msg' :: message where
  "bob_msg' = \<lparr>headers = [(''From'', Source ''Robert <bob@shop.example>''),
                            (''To'', Source ''x@relay.example'')],
               payload = ''Your invoice''\<rparr>"

definition after_bob :: world where
  "after_bob = teardown (snd (snd (handle_forward relay_env to_x bob_msg relay_world)))"

definition after_bob' :: world where
  "after_bob' = snd (snd (handle_forward relay_env to_x bob_msg' after_bob))"

text \<open>A message of a third correspondent, Carol.\<close>

definition carol_msg :: message where
  "carol_msg = \<lparr>headers = [(''From'', Source ''carol@club.example''),
                             (''To'', Source ''x@relay.example'')],
                payload = ''News''\<rparr>"

text \<open>The reply address Bob's mapping got, and a reply to it that quotes the address
  in its body, sent once from John's mailbox (in another spelling) and once from
  somebody else.\<close>

definition bob_token :: string where
  "bob_token = ''reply+aaaaaaaaaaaaaaaaaaaaaaaaaaaaaa@relay.example''"

definition john_reply :: message where
  "john_reply = \<lparr>headers = [(''From'', Source ''john@home.example''),
                              (''To'', Source bob_token),
                              (''Subject'', Source ''Re: Your order'')],
                 payload = ''Hi Bob. '' @ bob_token @ '' wrote: Your order''\<rparr>"

definition reply_john :: envelope where
  "reply_john = \<lparr>mail_from = ''John@Home.example'', rcpt_tos = [bob_token],
                 content = policy_as_string john_reply, mail_options = [], rcpt_options = []\<rparr>"







text \<open>
  Two worlds that differ in nothing but the reply addresses of their mappings: the
  tables but the mappings are the same, the mappings are the same row by row but for
  \<open>reply_email\<close>, and so are the transport calls, the recipients of the notifications
  and the number of draws.
\<close>

definition mapping_data :: "forward_email \<Rightarrow> nat \<times> nat \<times> string \<times> string" where
  "mapping_data f = (fe_id f, gen_email_id f, website_email f, website_from f)"

definition same_but_tokens_db :: "database \<Rightarrow> database \<Rightarrow> bool" where
  "same_but_tokens_db db1 db2 =
     (users db1 = users db2 \<and> mailboxes db1 = mailboxes db2 \<and> gen_emails db1 = gen_emails db2
      \<and> map mapping_data (forward_emails db1) = map mapping_data (forward_emails db2)
      \<and> forward_email_logs db1 = forward_email_logs db2
      \<and> custom_domains db1 = custom_domains db2 \<and> directories db1 = directories db2)"

definition same_but_tokens :: "world \<Rightarrow> world \<Rightarrow> bool" where
  "same_but_tokens w1 w2 =
     (same_but_tokens_db (session w1) (session w2)
      \<and> same_but_tokens_db (committed w1) (committed w2)
      \<and> smtp_log w1 = smtp_log w2
      \<and> map recipient (outbox w1) = map recipient (outbox w2)
      \<and> draws w1 = draws w2)"

text \<open>The world after Bob's message with his mapping under the reverse-alias prefix,
  the reply of John's to that address, and the same reply to Bob's address spelt in
  capitals.\<close>

definition ra_token :: string where
  "ra_token = ''ra+aaaaaaaaaaaaaaaaaaaaaaaaaaaaaa@relay.example''"

definition retoken :: "database \<Rightarrow> database" where
  "retoken db =
     db\<lparr>forward_emails := map (\<lambda>f. if reply_email f = bob_token then f\<lparr>reply_email := ra_token\<rparr>
                                    else f) (forward_emails db)\<rparr>"

definition ra_world :: world where
  "ra_world = after_bob\<lparr>session := retoken (session after_bob),
                        committed := retoken (committed after_bob)\<rparr>"

definition reply_john_ra :: envelope where
  "reply_john_ra = reply_john\<lparr>rcpt_tos := [ra_token]\<rparr>"

definition reply_john_capitals :: envelope where
  "reply_john_capitals =
     reply_john\<lparr>rcpt_tos := [''REPLY+AAAAAAAAAAAAAAAAAAAAAAAAAAAAAA@relay.example'']\<rparr>"

text \<open>An envelope with two recipients.\<close>

definition to_x_and_off :: envelope where
  "to_x_and_off = to_x\<lparr>rcpt_tos := [''x@relay.example'', ''off@relay.example'']\<rparr>"

text \<open>The relay with a directory \<open>sales\<close> of John's, a message of Jane to an address of
  that directory that holds a second \<open>@\<close>, and the world after that message.\<close>

definition sales_world :: world where
  "sales_world =
     relay_world\<lparr>session := relay_db\<lparr>directories :=
                               [\<lparr>dir_id = 1, dir_name = ''sales'', dir_user_id = 1\<rparr>]\<rparr>,
                 committed := relay_db\<lparr>directories :=
                               [\<lparr>dir_id = 1, dir_name = ''sales'', dir_user_id = 1\<rparr>]\<rparr>\<rparr>"

definition sales_alias :: string where
  "sales_alias = ''sales/x@y@relay.example''"

definition to_sales :: envelope where
  "to_sales = to_x\<lparr>rcpt_tos := [sales_alias]\<rparr>"

definition after_sales :: world where
  "after_sales = snd (handle_DATA relay_env to_sales sales_world)"

text \<open>The store after Bob's message.\<close>

definition bob_db :: database where
  "bob_db = relay_db\<lparr>forward_emails :=
                       [jane_mapping,
                        \<lparr>fe_id = 2, gen_email_id = 1, website_email = ''bob@shop.example'',
                          website_from = ''Bob <bob@shop.example>'', reply_email = bob_token\<rparr>],
                     forward_email_logs :=
                       [\<lparr>fl_id = 1, forward_id = 2, is_reply = False, blocked = False\<rparr>]\<rparr>"

section \<open>Properties\<close>

lemma after_bob_eval:
  "(case handle_forward relay_env to_x bob_msg relay_world of
      (out, msg, w) \<Rightarrow>
        (out, session (teardown w), committed (teardown w), outbox (teardown w),
         map (\<lambda>c. (from_addr c, to_addr c)) (smtp_log (teardown w)), draws (teardown w)))
   = (Returned ''250 Message accepted for delivery'', bob_db, bob_db, [],
      [(bob_token, ''john@home.example'')], 1)"
  by code_simp

lemma after_bob_facts:
  "session after_bob = bob_db" "committed after_bob = bob_db" "outbox after_bob = []"
  "map (\<lambda>c. (from_addr c, to_addr c)) (smtp_log after_bob) = [(bob_token, ''john@home.example'')]"
  "draws after_bob = 1"
  using after_bob_eval by (simp_all add: after_bob_def split: prod.splits)






lemma notify_unauthorised_outbox:
  "map recipient (outbox (notify_unauthorised cfg w usr alias sender mailbox_email reply_addr))
     = map recipient (outbox w) @ [mailbox_email, sender]"
  by (simp add: notify_unauthorised_def send_email_def Let_def recipient_def)

lemma notify_unauthorised_rest:
  "session (notify_unauthorised cfg w usr alias sender mailbox_email reply_addr) = session w"
  "committed (notify_unauthorised cfg w usr alias sender mailbox_email reply_addr) = committed w"
  "smtp_log (notify_unauthorised cfg w usr alias sender mailbox_email reply_addr) = smtp_log w"
  "draws (notify_unauthorised cfg w usr alias sender mailbox_email reply_addr) = draws w"
  by (simp_all add: notify_unauthorised_def send_email_def Let_def)




lemma fold_max_bound: "x \<in> set ids \<Longrightarrow> x \<le> fold max ids (a::nat)"
proof (induction ids arbitrary: a)
  case Nil
  then show ?case by simp
next
  case (Cons i ids)
  have mono: "b \<le> fold max ids (b::nat)" for b
    by (induction ids arbitrary: b) (auto intro: order_trans[OF max.cobounded2])
  show ?case
  proof (cases "x = i")
    case True
    have "i \<le> max i a" by simp
    also have "\<dots> \<le> fold max ids (max i a)" by (rule mono)
    finally show ?thesis using True by simp
  next
    case False
    with Cons.prems have "x \<in> set ids" by simp
    then show ?thesis using Cons.IH by simp
  qed
qed

lemma next_id_fresh: "x \<in> set ids \<Longrightarrow> x \<noteq> next_id ids"
  using fold_max_bound[of x ids 0] by (auto simp: next_id_def)

lemma get_or_create_frame:
  "forward_email_logs (session (snd (get_or_create_forward_email cfg g c f w))) = forward_email_logs (session w)"
  "smtp_log (snd (get_or_create_forward_email cfg g c f w)) = smtp_log w"
  "outbox (snd (get_or_create_forward_email cfg g c f w)) = outbox w"
  "gen_emails (session (snd (get_or_create_forward_email cfg g c f w))) = gen_emails (session w)"
  "users (session (snd (get_or_create_forward_email cfg g c f w))) = users (session w)"
  "mailboxes (session (snd (get_or_create_forward_email cfg g c f w))) = mailboxes (session w)"
  by (simp_all add: get_or_create_forward_email_def commit_def set_website_from_def
        ForwardEmail_create_def Let_def split: option.splits)

lemma blocked_new_log:
  "map (\<lambda>x. if fl_id x = next_id (map fl_id logs) then x\<lparr>blocked := True\<rparr> else x) logs = logs"
proof (rule map_idI)
  fix x assume "x \<in> set logs"
  then have "fl_id x \<in> set (map fl_id logs)" by simp
  then show "(if fl_id x = next_id (map fl_id logs) then x\<lparr>blocked := True\<rparr> else x) = x"
    using next_id_fresh by auto
qed

text \<open>
  C4. A forward addressed to an existing alias whose enabled flag is false (with the
  alias's delivery target on record and a From header in the message) returns
  \<open>250 Message accepted for delivery\<close>; it appends exactly one log entry, for the
  mapping of the correspondent, with \<open>blocked\<close> set, and commits it; it makes no
  transport call, sends no notification and leaves the message as it was.
\<close>

theorem disabled_alias_blocked:
  assumes rcpt: "rcpt_tos envelope = rcpt # rest"
    and found: "GenEmail_get_by_email (session w) (str_lower cfg rcpt) = Some g"
    and off: "\<not> ge_enabled g"
    and mbox: "mailbox_email_of (session w) g = Some mailbox_email"
    and frm: "get_header cfg msg ''From'' = Some f"
    and res: "handle_forward cfg envelope msg w = (out, msg', w')"
  shows "out = Returned ''250 Message accepted for delivery''
       \<and> forward_email_logs (session w') =
           forward_email_logs (session w) @
             [\<lparr>fl_id = next_id (map fl_id (forward_email_logs (session w))),
               forward_id = fe_id (fst (get_or_create_forward_email cfg g (get_email_part cfg f) f w)),
               is_reply = False, blocked = True\<rparr>]
       \<and> committed w' = session w'
       \<and> smtp_log w' = smtp_log w
       \<and> outbox w' = outbox w
       \<and> msg' = msg"
proof -
  let ?m = "get_or_create_forward_email cfg g (get_email_part cfg f) f w"
  have "handle_forward cfg envelope msg w = forward_to_alias cfg envelope msg g w"
    using rcpt found by (simp add: handle_forward_def resolve_alias_def Let_def)
  with res have run: "forward_to_alias cfg envelope msg g w = (out, msg', w')" by simp
  have "forward_to_alias cfg envelope msg g w =
          (Returned ''250 Message accepted for delivery'', msg,
           commit ((snd ?m)\<lparr>session :=
             set_blocked (snd (ForwardEmailLog_create (session (snd ?m)) (fe_id (fst ?m)) False))
               (fl_id (fst (ForwardEmailLog_create (session (snd ?m)) (fe_id (fst ?m)) False)))\<rparr>))"
    using off mbox frm by (simp add: forward_to_alias_def Let_def)
  with run have out: "out = Returned ''250 Message accepted for delivery''" and m: "msg' = msg"
    and w': "w' = commit ((snd ?m)\<lparr>session :=
             set_blocked (snd (ForwardEmailLog_create (session (snd ?m)) (fe_id (fst ?m)) False))
               (fl_id (fst (ForwardEmailLog_create (session (snd ?m)) (fe_id (fst ?m)) False)))\<rparr>)"
    by simp_all
  have logs: "forward_email_logs (session w') =
           forward_email_logs (session w) @
             [\<lparr>fl_id = next_id (map fl_id (forward_email_logs (session w))),
               forward_id = fe_id (fst ?m), is_reply = False, blocked = True\<rparr>]"
    unfolding w'
    by (simp add: commit_def set_blocked_def ForwardEmailLog_create_def Let_def
          get_or_create_frame blocked_new_log)
  have rest: "committed w' = session w'" "smtp_log w' = smtp_log w" "outbox w' = outbox w"
    unfolding w' by (simp_all add: commit_def get_or_create_frame)
  from out m logs rest show ?thesis by simp
qed

theorem disabled_alias_blocked_witness:
  "fst (handle_forward relay_env to_off jane_msg relay_world)
     = Returned ''250 Message accepted for delivery''
   \<and> forward_email_logs (session (snd (snd (handle_forward relay_env to_off jane_msg relay_world))))
     = [\<lparr>fl_id = 1, forward_id = 2, is_reply = False, blocked = True\<rparr>]
   \<and> smtp_log (snd (snd (handle_forward relay_env to_off jane_msg relay_world))) = []
   \<and> fst (snd (handle_forward relay_env to_off jane_msg relay_world)) = jane_msg"
proof -
  let ?r = "handle_forward relay_env to_off jane_msg relay_world"
  let ?f = "''Jane Doe <jane@biz.example>''"
  have h1: "rcpt_tos to_off = ''off@relay.example'' # []"
    by (simp add: to_off_def)
  have h2: "GenEmail_get_by_email (session relay_world) (str_lower relay_env ''off@relay.example'')
              = Some alias_off"
    by code_simp
  have h3: "\<not> ge_enabled alias_off"
    by code_simp
  have h4: "mailbox_email_of (session relay_world) alias_off = Some ''john@home.example''"
    by code_simp
  have h5: "get_header relay_env jane_msg ''From'' = Some ?f"
    by code_simp
  have r: "?r = (fst ?r, fst (snd ?r), snd (snd ?r))"
    by simp
  have v: "forward_email_logs (session relay_world) @
             [\<lparr>fl_id = next_id (map fl_id (forward_email_logs (session relay_world))),
               forward_id = fe_id (fst (get_or_create_forward_email relay_env alias_off
                                          (get_email_part relay_env ?f) ?f relay_world)),
               is_reply = False, blocked = True\<rparr>]
           = [\<lparr>fl_id = 1, forward_id = 2, is_reply = False, blocked = True\<rparr>]"
    by code_simp
  have o: "smtp_log relay_world = []"
    by (simp add: relay_world_def)
  from disabled_alias_blocked[OF h1 h2 h3 h4 h5 r] v o show ?thesis
    by simp
qed

lemma header_names_apart:
  "str_lower cfg ''From'' \<noteq> str_lower cfg ''X-SimpleLogin-Type''"
  "str_lower cfg ''From'' \<noteq> str_lower cfg ''Reply-To''"
  "str_lower cfg ''From'' \<noteq> str_lower cfg ''List-Unsubscribe''"
  "str_lower cfg ''From'' \<noteq> str_lower cfg ''List-Unsubscribe-Post''"
  by code_simp+

lemma find_replace_first_other:
  "str_lower cfg n \<noteq> str_lower cfg k \<Longrightarrow> replace_first cfg k v hs = Some hs' \<Longrightarrow>
   find (header_is cfg n) hs' = find (header_is cfg n) hs"
  by (induction hs arbitrary: hs') (auto simp: header_is_def split: if_splits)

lemma find_replace_first_same:
  "replace_first cfg n v hs = Some hs' \<Longrightarrow> \<exists>x. find (header_is cfg n) hs' = Some (x, Stored v)"
  by (induction hs arbitrary: hs') (auto simp: header_is_def split: if_splits)

lemma replace_first_found:
  "find (header_is cfg n) hs \<noteq> None \<Longrightarrow> replace_first cfg n v hs \<noteq> None"
  by (induction hs) (auto split: if_splits)

lemma find_append_headers:
  "find P (xs @ ys) = (case find P xs of None \<Rightarrow> find P ys | Some x \<Rightarrow> Some x)"
  by (induction xs) auto

lemma find_header_add_or_replace_other:
  assumes ne: "str_lower cfg n \<noteq> str_lower cfg k"
  shows "find_header cfg (add_or_replace_header cfg m k v) n = find_header cfg m n"
proof (cases "replace_first cfg k v (headers m)")
  case None
  have "\<not> header_is cfg n (k, Stored v)"
    using ne by (simp add: header_is_def)
  then have "find (header_is cfg n) (headers m @ [(k, Stored v)]) = find (header_is cfg n) (headers m)"
    by (simp add: find_append_headers split: option.splits)
  with None show ?thesis
    by (simp add: find_header_def add_or_replace_header_def)
next
  case (Some hs')
  from find_replace_first_other[OF ne Some] Some show ?thesis
    by (simp add: find_header_def add_or_replace_header_def)
qed

lemma find_header_delete_other:
  assumes ne: "str_lower cfg n \<noteq> str_lower cfg k"
  shows "find_header cfg (delete_header cfg m k) n = find_header cfg m n"
proof -
  have "find (header_is cfg n) (filter (\<lambda>h. \<not> header_is cfg k h) hs) = find (header_is cfg n) hs" for hs
    using ne by (induction hs) (auto simp: header_is_def)
  then show ?thesis by (simp add: find_header_def delete_header_def)
qed

lemma find_header_replaced:
  "replace_header cfg m n v = Inr m' \<Longrightarrow> \<exists>x. find_header cfg m' n = Some (x, Stored v)"
  using find_replace_first_same[of cfg n v "headers m"]
  by (auto simp: replace_header_def find_header_def split: option.splits if_splits)

lemma find_header_dkim:
  "find_header cfg m n = Some x \<Longrightarrow> find_header cfg (add_dkim_signature cfg m d) n = Some x"
  by (auto simp: find_header_def add_dkim_signature_def find_append_headers split: option.splits)

lemma forward_transform_from:
  assumes frm: "get_header cfg msg ''From'' = Some f"
    and t: "forward_transform cfg g fe c msg = (None, m)"
  shows "held_value cfg m ''From'' =
           Some (Stored (get_email_name cfg f @ (if get_email_name cfg f = [] then [] else '' - '')
                         @ str_replace c ''@'' '' at '' @ '' <'' @ reply_email fe @ ''>''))"
proof -
  let ?m2 = "delete_header cfg (add_or_replace_header cfg msg ''X-SimpleLogin-Type'' ''Forward'')
               ''Reply-To''"
  let ?v = "get_email_name cfg f @ (if get_email_name cfg f = [] then [] else '' - '')
              @ str_replace c ''@'' '' at '' @ '' <'' @ reply_email fe @ ''>''"
  have "find_header cfg ?m2 ''From'' = find_header cfg msg ''From''"
    by (simp only: find_header_delete_other[OF header_names_apart(2)]
          find_header_add_or_replace_other[OF header_names_apart(1)])
  then have f2: "get_header cfg ?m2 ''From'' = Some f"
    using frm by (simp add: get_header_def)
  have run: "forward_transform cfg g fe c msg =
          (case replace_header cfg ?m2 ''From'' ?v of
             Inl e \<Rightarrow> (Some e, ?m2)
           | Inr m3 \<Rightarrow>
               (None, add_dkim_signature cfg
                  (add_or_replace_header cfg
                     (add_or_replace_header cfg m3 ''List-Unsubscribe''
                        (''<'' @ (URL cfg @ ''/dashboard/unsubscribe/'' @ str_of_nat (ge_id g)) @ ''>''))
                     ''List-Unsubscribe-Post'' ''List-Unsubscribe=One-Click'')
                  (EMAIL_DOMAIN cfg)))"
    by (simp only: forward_transform_def Let_def f2 option.case)
  note c = t[unfolded run]
  from c obtain m3 where m3: "replace_header cfg ?m2 ''From'' ?v = Inr m3"
    and m: "m = add_dkim_signature cfg
                  (add_or_replace_header cfg
                     (add_or_replace_header cfg m3 ''List-Unsubscribe''
                        (''<'' @ (URL cfg @ ''/dashboard/unsubscribe/'' @ str_of_nat (ge_id g)) @ ''>''))
                     ''List-Unsubscribe-Post'' ''List-Unsubscribe=One-Click'')
                  (EMAIL_DOMAIN cfg)"
    by (cases "replace_header cfg ?m2 ''From'' ?v") auto
  from find_header_replaced[OF m3] obtain x where x: "find_header cfg m3 ''From'' = Some (x, Stored ?v)"
    by blast
  have "find_header cfg m ''From'' = Some (x, Stored ?v)"
    unfolding m
    by (rule find_header_dkim)
       (simp only: find_header_add_or_replace_other[OF header_names_apart(3)]
          find_header_add_or_replace_other[OF header_names_apart(4)] x)
  then show ?thesis
    by (simp add: held_value_def)
qed

lemma create_for_directory_calls:
  "smtp_log (snd (create_for_directory cfg a w)) = smtp_log w"
  by (simp add: create_for_directory_def GenEmail_create_def commit_def Let_def
        split: option.splits)

lemma create_for_catch_all_calls:
  "smtp_log (snd (create_for_catch_all cfg a w)) = smtp_log w"
  by (simp add: create_for_catch_all_def GenEmail_create_def commit_def Let_def
        split: option.splits)

lemma resolve_alias_calls:
  "smtp_log (snd (resolve_alias cfg a w)) = smtp_log w"
proof (cases "GenEmail_get_by_email (session w) a")
  case (Some g)
  then show ?thesis by (simp add: resolve_alias_def)
next
  case None
  obtain r w1 where d: "create_for_directory cfg a w = (r, w1)"
    by (cases "create_for_directory cfg a w")
  have w1: "smtp_log w1 = smtp_log w"
    using create_for_directory_calls[of cfg a w] d by simp
  show ?thesis
  proof (cases r)
    case (Inl e)
    with None d w1 show ?thesis by (simp add: resolve_alias_def)
  next
    case (Inr og)
    with None d w1 create_for_catch_all_calls[of cfg a w1] show ?thesis
      by (cases og) (simp_all add: resolve_alias_def)
  qed
qed

text \<open>
  C5. For a forward that is accepted (\<open>250\<close>) through an enabled alias, whether the
  alias existed or was created on the fly: when the From header reads as \<open>f\<close>, with the
  display name \<open>N\<close> and the address \<open>C\<close>, and \<open>T\<close> is the reply address of the mapping,
  the From header the message holds afterwards is the stored value \<open>N - C' <T>\<close> when
  \<open>N\<close> is not empty, and \<open>C' <T>\<close> when it is, where \<open>C'\<close> is \<open>C\<close> with every \<open>@\<close> replaced
  by \<open> at \<close>; and that message, serialised, is handed to the transport in one call
  from \<open>T\<close> to the alias's delivery target. The source leaves the separator \<open> - \<close> out
  when there is no display name, so the formula with the separator holds for the
  non-empty names only.
\<close>

theorem forward_from_rewritten:
  assumes rcpt: "rcpt_tos envelope = rcpt # rest"
    and res: "handle_forward cfg envelope msg w
                = (Returned ''250 Message accepted for delivery'', msg', w')"
    and resolved: "resolve_alias cfg (str_lower cfg rcpt) w = (Inr (Some g), w1)"
    and on: "ge_enabled g"
    and frm: "get_header cfg msg ''From'' = Some f"
    and name: "get_email_name cfg f = N"
    and addr: "get_email_part cfg f = C"
    and token: "reply_email (fst (get_or_create_forward_email cfg g C f w1)) = T"
  shows "held_value cfg msg' ''From'' =
           Some (Stored (if N = [] then str_replace C ''@'' '' at '' @ '' <'' @ T @ ''>''
                         else N @ '' - '' @ str_replace C ''@'' '' at '' @ '' <'' @ T @ ''>''))
       \<and> (\<exists>mailbox_email.
             mailbox_email_of (session w1) g = Some mailbox_email
           \<and> smtp_log w' = smtp_log w @
               [\<lparr>from_addr = T, to_addr = mailbox_email, raw = as_string cfg msg',
                 call_mail_options = mail_options envelope,
                 call_rcpt_options = rcpt_options envelope\<rparr>])"
proof -
  let ?m = "get_or_create_forward_email cfg g C f w1"
  let ?w1 = "(snd ?m)\<lparr>session := snd (ForwardEmailLog_create (session (snd ?m)) (fe_id (fst ?m)) False)\<rparr>"
  have "handle_forward cfg envelope msg w = forward_to_alias cfg envelope msg g w1"
    using rcpt resolved by (simp add: handle_forward_def Let_def)
  with res have run: "forward_to_alias cfg envelope msg g w1
                        = (Returned ''250 Message accepted for delivery'', msg', w')"
    by simp
  obtain mailbox_email where mbox: "mailbox_email_of (session w1) g = Some mailbox_email"
    using run by (cases "mailbox_email_of (session w1) g") (auto simp: forward_to_alias_def)
  obtain r m where t: "forward_transform cfg g (fst ?m) C msg = (r, m)"
    by (cases "forward_transform cfg g (fst ?m) C msg")
  let ?call = "\<lparr>from_addr = T, to_addr = mailbox_email, raw = as_string cfg m,
                call_mail_options = mail_options envelope,
                call_rcpt_options = rcpt_options envelope\<rparr>"
  let ?w2 = "?w1\<lparr>smtp_log := smtp_log ?w1 @ [?call]\<rparr>"
  have unfolded: "forward_to_alias cfg envelope msg g w1 =
          (case r of
             Some e \<Rightarrow> (Raised e, m, ?w1)
           | None \<Rightarrow>
               if \<not> sendmail_accepts cfg ?call then (Raised SMTPException, m, ?w2)
               else (Returned ''250 Message accepted for delivery'', m, commit ?w2))"
    by (simp only: forward_to_alias_def Let_def mbox frm option.case addr on if_True t
          prod.case token)
  with run have r: "r = None" and m: "msg' = m" and w': "w' = commit ?w2"
    by (cases r; auto split: if_splits)+
  have "smtp_log ?w2 = smtp_log w1 @ [?call]"
    by (simp add: get_or_create_frame)
  moreover have "smtp_log w1 = smtp_log w"
    using resolve_alias_calls[of cfg "str_lower cfg rcpt" w] resolved by simp
  ultimately have log: "smtp_log w' = smtp_log w @ [?call]"
    using w' by (simp add: commit_def)
  from forward_transform_from[OF frm t[unfolded r]] name token
  have "held_value cfg m ''From'' =
           Some (Stored (if N = [] then str_replace C ''@'' '' at '' @ '' <'' @ T @ ''>''
                         else N @ '' - '' @ str_replace C ''@'' '' at '' @ '' <'' @ T @ ''>''))"
    by (cases "N = []") simp_all
  with m log mbox show ?thesis by simp
qed

theorem forward_from_rewritten_witness:
  "held_value relay_env (fst (snd (handle_forward relay_env to_x jane_msg relay_world))) ''From''
     = Some (Stored ''Jane Doe - jane at biz.example <abcd1234@relay.example>'')
   \<and> map (\<lambda>c. (from_addr c, to_addr c,
                contains (raw c) (''From: Jane Doe - jane at biz.example <abcd1234@relay.example>'' @ crlf)))
        (smtp_log (snd (snd (handle_forward relay_env to_x jane_msg relay_world))))
     = [(''abcd1234@relay.example'', ''john@home.example'', True)]"
proof -
  let ?r = "handle_forward relay_env to_x jane_msg relay_world"
  let ?f = "''Jane Doe <jane@biz.example>''"
  have ev: "(case ?r of (out, m, w) \<Rightarrow>
               (out, map (\<lambda>c. contains (raw c)
                    (''From: Jane Doe - jane at biz.example <abcd1234@relay.example>'' @ crlf))
                  (smtp_log w)))
            = (Returned ''250 Message accepted for delivery'', [True])"
    by code_simp
  have h1: "rcpt_tos to_x = ''x@relay.example'' # []"
    by (simp add: to_x_def)
  have h2: "?r = (Returned ''250 Message accepted for delivery'', fst (snd ?r), snd (snd ?r))"
    using ev by (simp split: prod.splits)
  have h3: "resolve_alias relay_env (str_lower relay_env ''x@relay.example'') relay_world
              = (Inr (Some alias_x), relay_world)"
    by code_simp
  have h4: "ge_enabled alias_x"
    by code_simp
  have h5: "get_header relay_env jane_msg ''From'' = Some ?f"
    by code_simp
  have h6: "get_email_name relay_env ?f = ''Jane Doe''"
    by code_simp
  have h7: "get_email_part relay_env ?f = ''jane@biz.example''"
    by code_simp
  have h8: "reply_email (fst (get_or_create_forward_email relay_env alias_x ''jane@biz.example''
                                ?f relay_world)) = ''abcd1234@relay.example''"
    by code_simp
  have v: "str_replace ''jane@biz.example'' ''@'' '' at '' = ''jane at biz.example''"
    by code_simp
  have mb: "mailbox_email_of (session relay_world) alias_x = Some ''john@home.example''"
    by code_simp
  have o: "smtp_log relay_world = []"
    by (simp add: relay_world_def)
  from forward_from_rewritten[OF h1 h2 h3 h4 h5 h6 h7 h8] v mb o ev show ?thesis
    by (auto split: prod.splits)
qed

text \<open>A From header that is a bare address has the empty display name, and the
  rewritten header does not start with the separator.\<close>

theorem forward_from_without_name_counterexample:
  "(get_header relay_env bare_msg ''From'',
    get_email_name relay_env ''jane@biz.example'',
    get_email_part relay_env ''jane@biz.example'',
    case handle_forward relay_env to_x bare_msg relay_world of
      (out, m, w) \<Rightarrow>
        (out, held_value relay_env m ''From'',
         held_value relay_env m ''From''
           = Some (Stored ([] @ '' - '' @ str_replace ''jane@biz.example'' ''@'' '' at ''
                           @ '' <'' @ ''abcd1234@relay.example'' @ ''>''))))
   = (Some ''jane@biz.example'', [], ''jane@biz.example'',
      Returned ''250 Message accepted for delivery'',
      Some (Stored ''jane at biz.example <abcd1234@relay.example>''), False)"
  by code_simp

lemma get_by_pair_None:
  "ForwardEmail_get_by_pair db a c = None \<longleftrightarrow> (a, c) \<notin> set (mapping_keys db)"
  by (auto simp: ForwardEmail_get_by_pair_def find_None_iff mapping_keys_def)

lemma keys_set_website_from:
  "mapping_keys (set_website_from db i f) = mapping_keys db"
  by (simp add: set_website_from_def mapping_keys_def comp_def if_distrib cong: if_cong)

lemma keys_after_create:
  "mapping_keys (snd (ForwardEmail_create db a c f r)) = mapping_keys db @ [(a, c)]"
  by (simp add: ForwardEmail_create_def Let_def mapping_keys_def)

lemma get_or_create_session:
  "session (snd (get_or_create_forward_email cfg g c f w)) =
     (case ForwardEmail_get_by_pair (session w) (ge_id g) c of
        None \<Rightarrow> snd (ForwardEmail_create (session w) (ge_id g) c f
                      (fst (sample_reply_email cfg (session w) 1000 (draws w) [])))
      | Some fe \<Rightarrow>
          if website_from fe \<noteq> f then set_website_from (session w) (fe_id fe) f else session w)"
  by (simp add: get_or_create_forward_email_def commit_def Let_def split: option.splits)

lemma get_or_create_keys:
  "mapping_keys (session (snd (get_or_create_forward_email cfg g c f w))) =
     (if (ge_id g, c) \<in> set (mapping_keys (session w)) then mapping_keys (session w)
      else mapping_keys (session w) @ [(ge_id g, c)])"
proof (cases "ForwardEmail_get_by_pair (session w) (ge_id g) c")
  case None
  moreover from None have "(ge_id g, c) \<notin> set (mapping_keys (session w))"
    by (simp add: get_by_pair_None)
  ultimately show ?thesis
    by (simp add: get_or_create_session keys_after_create)
next
  case (Some fe)
  moreover from Some have "(ge_id g, c) \<in> set (mapping_keys (session w))"
    using get_by_pair_None[of "session w" "ge_id g" c] by simp
  ultimately show ?thesis
    by (simp add: get_or_create_session keys_set_website_from)
qed

lemma get_or_create_inv:
  "mapping_inv (session w) \<Longrightarrow> mapping_inv (session (snd (get_or_create_forward_email cfg g c f w)))"
  by (simp add: mapping_inv_def get_or_create_keys)

lemma get_or_create_present:
  "(ge_id g, c) \<in> set (mapping_keys (session (snd (get_or_create_forward_email cfg g c f w))))"
  by (simp add: get_or_create_keys)

lemma get_or_create_clean:
  "committed w = session w \<Longrightarrow>
   committed (snd (get_or_create_forward_email cfg g c f w))
     = session (snd (get_or_create_forward_email cfg g c f w))"
  by (simp add: get_or_create_forward_email_def commit_def Let_def split: option.splits)

lemma get_or_create_committed:
  "committed (snd (get_or_create_forward_email cfg g c f w)) = committed w
   \<or> committed (snd (get_or_create_forward_email cfg g c f w))
       = session (snd (get_or_create_forward_email cfg g c f w))"
  by (simp add: get_or_create_forward_email_def commit_def Let_def split: option.splits)

lemma get_or_create_existing:
  "ForwardEmail_get_by_pair (session w) (ge_id g) c = Some fe \<Longrightarrow>
   forward_emails (session (snd (get_or_create_forward_email cfg g c f w))) =
     (if website_from fe \<noteq> f
      then map (\<lambda>x. if fe_id x = fe_id fe then x\<lparr>website_from := f\<rparr> else x)
             (forward_emails (session w))
      else forward_emails (session w))"
  by (simp add: get_or_create_session set_website_from_def)

lemma one_row_for_key:
  "distinct (map key fes) \<Longrightarrow> k \<in> set (map key fes) \<Longrightarrow>
   length (filter (\<lambda>x. key x = k) fes) = 1"
proof (induction fes)
  case Nil
  then show ?case by simp
next
  case (Cons x fes)
  show ?case
  proof (cases "key x = k")
    case True
    with Cons.prems have "k \<notin> set (map key fes)" by auto
    then have "filter (\<lambda>x. key x = k) fes = []"
      by (auto simp: filter_empty_conv)
    with True show ?thesis by simp
  next
    case False
    with Cons show ?thesis by auto
  qed
qed

lemma one_mapping_for_pair:
  assumes "mapping_inv db" and "(a, c) \<in> set (mapping_keys db)"
  shows "length (filter (\<lambda>x. gen_email_id x = a \<and> website_email x = c) (forward_emails db)) = 1"
  using one_row_for_key[of "\<lambda>f. (gen_email_id f, website_email f)" "forward_emails db" "(a, c)"] assms
  by (simp add: mapping_inv_def mapping_keys_def)

lemma mapping_inv_cong:
  "forward_emails db' = forward_emails db \<Longrightarrow> mapping_inv db' = mapping_inv db"
  by (simp add: mapping_inv_def mapping_keys_def)

lemma create_for_directory_frame:
  assumes "create_for_directory cfg a w = (r, w1)"
  shows "forward_emails (session w1) = forward_emails (session w)
         \<and> (committed w1 = committed w \<or> committed w1 = session w1)"
  using assms
  by (auto simp: create_for_directory_def GenEmail_create_def commit_def Let_def
        split: option.splits if_splits)

lemma create_for_catch_all_frame:
  assumes "create_for_catch_all cfg a w = (r, w1)"
  shows "forward_emails (session w1) = forward_emails (session w)
         \<and> (committed w1 = committed w \<or> committed w1 = session w1)"
  using assms
  by (auto simp: create_for_catch_all_def GenEmail_create_def commit_def Let_def
        split: option.splits if_splits)

lemma create_for_directory_inv:
  "store_inv w \<Longrightarrow> store_inv (snd (create_for_directory cfg a w))"
  using create_for_directory_frame[OF surjective_pairing, of cfg a w]
    mapping_inv_cong[of "session (snd (create_for_directory cfg a w))" "session w"]
  by (auto simp: store_inv_def)

lemma create_for_catch_all_inv:
  "store_inv w \<Longrightarrow> store_inv (snd (create_for_catch_all cfg a w))"
  using create_for_catch_all_frame[OF surjective_pairing, of cfg a w]
    mapping_inv_cong[of "session (snd (create_for_catch_all cfg a w))" "session w"]
  by (auto simp: store_inv_def)

lemma resolve_alias_inv:
  assumes "store_inv w"
  shows "store_inv (snd (resolve_alias cfg a w))"
proof (cases "GenEmail_get_by_email (session w) a")
  case (Some g)
  with assms show ?thesis by (simp add: resolve_alias_def)
next
  case None
  obtain r w1 where d: "create_for_directory cfg a w = (r, w1)"
    by (cases "create_for_directory cfg a w")
  have w1: "store_inv w1"
    using create_for_directory_inv[OF assms, of cfg a] d by simp
  show ?thesis
  proof (cases r)
    case (Inl e)
    with None d w1 show ?thesis by (simp add: resolve_alias_def)
  next
    case (Inr og)
    with None d w1 create_for_catch_all_inv[OF w1, of cfg a] show ?thesis
      by (cases og) (simp_all add: resolve_alias_def)
  qed
qed

lemma forward_to_alias_unfold:
  assumes mbox: "mailbox_email_of (session w) g = Some mailbox_email"
    and frm: "get_header cfg msg ''From'' = Some f"
    and t: "forward_transform cfg g
              (fst (get_or_create_forward_email cfg g (get_email_part cfg f) f w))
              (get_email_part cfg f) msg = (r, m)"
  shows "forward_to_alias cfg envelope msg g w =
     (let mapping = get_or_create_forward_email cfg g (get_email_part cfg f) f w;
          created = ForwardEmailLog_create (session (snd mapping)) (fe_id (fst mapping)) False;
          w1 = (snd mapping)\<lparr>session := snd created\<rparr>;
          call = \<lparr>from_addr = reply_email (fst mapping), to_addr = mailbox_email,
                  raw = as_string cfg m, call_mail_options = mail_options envelope,
                  call_rcpt_options = rcpt_options envelope\<rparr>;
          w2 = w1\<lparr>smtp_log := smtp_log w1 @ [call]\<rparr>
      in if ge_enabled g then
           (case r of
              Some e \<Rightarrow> (Raised e, m, w1)
            | None \<Rightarrow>
                if \<not> sendmail_accepts cfg call then (Raised SMTPException, m, w2)
                else (Returned ''250 Message accepted for delivery'', m, commit w2))
         else (Returned ''250 Message accepted for delivery'', msg,
               commit (w1\<lparr>session := set_blocked (session w1) (fl_id (fst created))\<rparr>)))"
  by (simp only: forward_to_alias_def Let_def mbox frm option.case t prod.case)

lemma forward_to_alias_past:
  assumes mbox: "mailbox_email_of (session w) g = Some mailbox_email"
    and frm: "get_header cfg msg ''From'' = Some f"
    and res: "forward_to_alias cfg envelope msg g w = (out, msg', w')"
  shows "forward_emails (session w') =
           forward_emails (session (snd (get_or_create_forward_email cfg g (get_email_part cfg f) f w)))"
    and "gen_emails (session w') = gen_emails (session w)"
    and "users (session w') = users (session w)"
    and "mailboxes (session w') = mailboxes (session w)"
    and "committed w' = committed (snd (get_or_create_forward_email cfg g (get_email_part cfg f) f w))
         \<or> committed w' = session w'"
proof -
  let ?M = "get_or_create_forward_email cfg g (get_email_part cfg f) f w"
  let ?L = "ForwardEmailLog_create (session (snd ?M)) (fe_id (fst ?M)) False"
  obtain r m where t: "forward_transform cfg g (fst ?M) (get_email_part cfg f) msg = (r, m)"
    by (cases "forward_transform cfg g (fst ?M) (get_email_part cfg f) msg")
  note U = forward_to_alias_unfold[OF mbox frm t, of envelope, unfolded res Let_def]
  have S: "session w' = snd ?L \<or> session w' = set_blocked (snd ?L) (fl_id (fst ?L))"
  proof (cases "ge_enabled g")
    case False
    with U show ?thesis by (simp add: commit_def)
  next
    case True
    show ?thesis
    proof (cases r)
      case None
      with U True show ?thesis by (simp add: commit_def split: if_splits)
    next
      case (Some e)
      with U True show ?thesis by simp
    qed
  qed
  have lg: "forward_emails (snd ?L) = forward_emails (session (snd ?M))"
    "gen_emails (snd ?L) = gen_emails (session (snd ?M))"
    "users (snd ?L) = users (session (snd ?M))"
    "mailboxes (snd ?L) = mailboxes (session (snd ?M))"
    by (simp_all add: ForwardEmailLog_create_def Let_def)
  have bl: "forward_emails (set_blocked db i) = forward_emails db"
    "gen_emails (set_blocked db i) = gen_emails db"
    "users (set_blocked db i) = users db"
    "mailboxes (set_blocked db i) = mailboxes db" for db i
    by (simp_all add: set_blocked_def)
  from S lg bl show "forward_emails (session w') = forward_emails (session (snd ?M))"
    by auto
  from S lg bl show "gen_emails (session w') = gen_emails (session w)"
    by (auto simp: get_or_create_frame)
  from S lg bl show "users (session w') = users (session w)"
    by (auto simp: get_or_create_frame)
  from S lg bl show "mailboxes (session w') = mailboxes (session w)"
    by (auto simp: get_or_create_frame)
  show "committed w' = committed (snd ?M) \<or> committed w' = session w'"
  proof (cases "ge_enabled g")
    case False
    with U show ?thesis by (simp add: commit_def)
  next
    case True
    show ?thesis
    proof (cases r)
      case None
      with U True show ?thesis by (simp add: commit_def split: if_splits)
    next
      case (Some e)
      with U True show ?thesis by simp
    qed
  qed
qed

lemma forward_to_alias_inv:
  assumes "store_inv w"
  shows "store_inv (snd (snd (forward_to_alias cfg envelope msg g w)))"
proof (cases "mailbox_email_of (session w) g")
  case None
  with assms show ?thesis by (simp add: forward_to_alias_def)
next
  case (Some mailbox_email)
  show ?thesis
  proof (cases "get_header cfg msg ''From''")
    case None
    with Some assms show ?thesis by (simp add: forward_to_alias_def)
  next
    case (Some f)
    let ?M = "get_or_create_forward_email cfg g (get_email_part cfg f) f w"
    let ?r = "forward_to_alias cfg envelope msg g w"
    have r: "?r = (fst ?r, fst (snd ?r), snd (snd ?r))" by simp
    note P = forward_to_alias_past[OF \<open>mailbox_email_of (session w) g = Some mailbox_email\<close> Some r]
    have s: "mapping_inv (session (snd (snd ?r)))"
      using mapping_inv_cong[OF P(1)] get_or_create_inv[of w cfg g "get_email_part cfg f" f] assms
      by (simp add: store_inv_def)
    have "mapping_inv (committed (snd ?M))"
      using get_or_create_committed[of cfg g "get_email_part cfg f" f w]
        get_or_create_inv[of w cfg g "get_email_part cfg f" f] assms
      by (auto simp: store_inv_def)
    with P(5) s have "mapping_inv (committed (snd (snd ?r)))"
      by auto
    with s show ?thesis by (simp add: store_inv_def)
  qed
qed

lemma handle_forward_inv:
  assumes "store_inv w"
  shows "store_inv (snd (snd (handle_forward cfg envelope msg w)))"
proof (cases "rcpt_tos envelope")
  case Nil
  with assms show ?thesis by (simp add: handle_forward_def)
next
  case (Cons rcpt rest)
  obtain r w1 where a: "resolve_alias cfg (str_lower cfg rcpt) w = (r, w1)"
    by (cases "resolve_alias cfg (str_lower cfg rcpt) w")
  have w1: "store_inv w1"
    using resolve_alias_inv[OF assms, of cfg "str_lower cfg rcpt"] a by simp
  show ?thesis
  proof (cases r)
    case (Inl e)
    with Cons a w1 show ?thesis by (simp add: handle_forward_def)
  next
    case (Inr og)
    with Cons a w1 forward_to_alias_inv[OF w1] show ?thesis
      by (cases og) (simp_all add: handle_forward_def)
  qed
qed

lemma GenEmail_get_by_email_cong:
  "gen_emails db' = gen_emails db \<Longrightarrow> GenEmail_get_by_email db' a = GenEmail_get_by_email db a"
  by (simp add: GenEmail_get_by_email_def)

lemma mailbox_email_of_cong:
  "users db' = users db \<Longrightarrow> mailboxes db' = mailboxes db \<Longrightarrow>
   mailbox_email_of db' g = mailbox_email_of db g"
  by (simp add: mailbox_email_of_def User_get_def Mailbox_get_def split: option.splits)

lemma mapping_keys_cong:
  "forward_emails db' = forward_emails db \<Longrightarrow> mapping_keys db' = mapping_keys db"
  by (simp add: mapping_keys_def)

lemma handle_forward_existing:
  "rcpt_tos envelope = rcpt # rest \<Longrightarrow>
   GenEmail_get_by_email (session w) (str_lower cfg rcpt) = Some g \<Longrightarrow>
   handle_forward cfg envelope msg w = forward_to_alias cfg envelope msg g w"
  by (simp add: handle_forward_def resolve_alias_def Let_def)

text \<open>
  C3. Two forwards in a row from the correspondent \<open>C\<close> to the existing alias \<open>A\<close>
  (each inside its own application context; the delivery target on record, the store
  committed and holding at most one mapping a pair at the start) leave exactly one
  mapping for \<open>(A, C)\<close>. The second forward finds the mapping the first one left,
  creates none, and changes nothing in the table but the \<open>website_from\<close> of that
  mapping, and that only when it differs from the From header; every reply address
  stays as it was. The invariant holds after each of the two, and every forward,
  whatever its input and outcome, keeps it on the session's and on the committed
  store.
\<close>

theorem two_forwards_one_mapping:
  assumes inv: "mapping_inv (session w)"
    and clean: "committed w = session w"
    and rcpt1: "rcpt_tos e1 = r1 # rest1"
    and rcpt2: "rcpt_tos e2 = r2 # rest2"
    and found1: "GenEmail_get_by_email (session w) (str_lower cfg r1) = Some g"
    and found2: "GenEmail_get_by_email (session w) (str_lower cfg r2) = Some g"
    and mbox: "mailbox_email_of (session w) g = Some mailbox_email"
    and from1: "get_header cfg m1 ''From'' = Some f1"
    and from2: "get_header cfg m2 ''From'' = Some f2"
    and c1: "get_email_part cfg f1 = C"
    and c2: "get_email_part cfg f2 = C"
    and first: "handle_forward cfg e1 m1 w = (out1, m1', w1)"
    and second: "handle_forward cfg e2 m2 (teardown w1) = (out2, m2', w2)"
  shows "mapping_inv (session w1) \<and> mapping_inv (session (teardown w1)) \<and> mapping_inv (session w2)
       \<and> length (filter (\<lambda>x. gen_email_id x = ge_id g \<and> website_email x = C)
                   (forward_emails (session w2))) = 1
       \<and> (case ForwardEmail_get_by_pair (session (teardown w1)) (ge_id g) C of
             None \<Rightarrow> False
           | Some fe \<Rightarrow>
               forward_emails (session w2) =
                 (if website_from fe \<noteq> f2
                  then map (\<lambda>x. if fe_id x = fe_id fe then x\<lparr>website_from := f2\<rparr> else x)
                         (forward_emails (session (teardown w1)))
                  else forward_emails (session (teardown w1))))
       \<and> map reply_email (forward_emails (session w2))
           = map reply_email (forward_emails (session (teardown w1)))
       \<and> length (forward_emails (session w2)) = length (forward_emails (session (teardown w1)))
       \<and> (\<forall>cfg' e m w0. store_inv w0 \<longrightarrow> store_inv (snd (snd (handle_forward cfg' e m w0))))"
proof -
  let ?M1 = "get_or_create_forward_email cfg g C f1 w"
  let ?db1 = "session (teardown w1)"
  let ?M2 = "get_or_create_forward_email cfg g C f2 (teardown w1)"
  have run1: "forward_to_alias cfg e1 m1 g w = (out1, m1', w1)"
    using handle_forward_existing[OF rcpt1 found1] first by simp
  note P1 = forward_to_alias_past[OF mbox from1 run1, unfolded c1]
  have cm1: "committed (snd ?M1) = session (snd ?M1)"
    by (rule get_or_create_clean[OF clean])
  have db1: "?db1 = committed w1"
    by (simp add: teardown_def)
  have fe1: "forward_emails ?db1 = forward_emails (session (snd ?M1))"
    using P1(1) P1(5) cm1 db1 by auto
  have ge1: "gen_emails ?db1 = gen_emails (session w)"
    using P1(2) P1(5) cm1 db1 get_or_create_frame(4)[of cfg g C f1 w] by auto
  have us1: "users ?db1 = users (session w)"
    using P1(3) P1(5) cm1 db1 get_or_create_frame(5)[of cfg g C f1 w] by auto
  have mb1: "mailboxes ?db1 = mailboxes (session w)"
    using P1(4) P1(5) cm1 db1 get_or_create_frame(6)[of cfg g C f1 w] by auto
  have i1: "mapping_inv (session w1)"
    using mapping_inv_cong[OF P1(1)] get_or_create_inv[OF inv] by simp
  have i1': "mapping_inv ?db1"
    using mapping_inv_cong[OF fe1] get_or_create_inv[OF inv] by simp
  have clean1: "committed (teardown w1) = session (teardown w1)"
    by (simp add: teardown_def)
  have found2': "GenEmail_get_by_email ?db1 (str_lower cfg r2) = Some g"
    using GenEmail_get_by_email_cong[OF ge1] found2 by simp
  have mbox': "mailbox_email_of ?db1 g = Some mailbox_email"
    using mailbox_email_of_cong[OF us1 mb1] mbox by simp
  have run2: "forward_to_alias cfg e2 m2 g (teardown w1) = (out2, m2', w2)"
    using handle_forward_existing[OF rcpt2 found2'] second by simp
  note P2 = forward_to_alias_past[OF mbox' from2 run2, unfolded c2]
  have i2: "mapping_inv (session w2)"
    using mapping_inv_cong[OF P2(1)] get_or_create_inv[OF i1'] by simp
  have "(ge_id g, C) \<in> set (mapping_keys ?db1)"
    using mapping_keys_cong[OF fe1] get_or_create_present[of g C cfg f1 w] by simp
  then obtain fe where fe: "ForwardEmail_get_by_pair ?db1 (ge_id g) C = Some fe"
    using get_by_pair_None[of ?db1 "ge_id g" C] by (cases "ForwardEmail_get_by_pair ?db1 (ge_id g) C") auto
  have tab: "forward_emails (session w2) =
                 (if website_from fe \<noteq> f2
                  then map (\<lambda>x. if fe_id x = fe_id fe then x\<lparr>website_from := f2\<rparr> else x)
                         (forward_emails ?db1)
                  else forward_emails ?db1)"
    using P2(1) get_or_create_existing[OF fe, of cfg f2] by simp
  have "(ge_id g, C) \<in> set (mapping_keys (session w2))"
    using mapping_keys_cong[OF P2(1)] get_or_create_present[of g C cfg f2 "teardown w1"] by simp
  then have one: "length (filter (\<lambda>x. gen_email_id x = ge_id g \<and> website_email x = C)
                   (forward_emails (session w2))) = 1"
    by (rule one_mapping_for_pair[OF i2])
  have tok: "map reply_email (forward_emails (session w2)) = map reply_email (forward_emails ?db1)"
    unfolding tab by (simp add: comp_def if_distrib cong: if_cong)
  have len: "length (forward_emails (session w2)) = length (forward_emails ?db1)"
    unfolding tab by simp
  have gen: "\<forall>cfg' e m w0. store_inv w0 \<longrightarrow> store_inv (snd (snd (handle_forward cfg' e m w0)))"
    using handle_forward_inv by blast
  from i1 i1' i2 one fe tab tok len gen show ?thesis
    by simp
qed

theorem two_forwards_one_mapping_witness:
  "length (filter (\<lambda>x. gen_email_id x = ge_id alias_x \<and> website_email x = ''bob@shop.example'')
            (forward_emails (session after_bob'))) = 1
   \<and> map reply_email (forward_emails (session after_bob'))
       = map reply_email (forward_emails (session after_bob))
   \<and> mapping_inv (session after_bob) \<and> mapping_inv (session after_bob')
   \<and> map (\<lambda>x. (website_email x, website_from x, reply_email x)) (forward_emails (session after_bob))
       = [(''jane@biz.example'', ''Jane <jane@biz.example>'', ''abcd1234@relay.example''),
          (''bob@shop.example'', ''Bob <bob@shop.example>'',
           ''reply+aaaaaaaaaaaaaaaaaaaaaaaaaaaaaa@relay.example'')]
   \<and> map (\<lambda>x. (website_email x, website_from x, reply_email x)) (forward_emails (session after_bob'))
       = [(''jane@biz.example'', ''Jane <jane@biz.example>'', ''abcd1234@relay.example''),
          (''bob@shop.example'', ''Robert <bob@shop.example>'',
           ''reply+aaaaaaaaaaaaaaaaaaaaaaaaaaaaaa@relay.example'')]"
proof -
  let ?r1 = "handle_forward relay_env to_x bob_msg relay_world"
  let ?r2 = "handle_forward relay_env to_x bob_msg' (teardown (snd (snd ?r1)))"
  have inv: "mapping_inv (session relay_world)"
    by code_simp
  have clean: "committed relay_world = session relay_world"
    by (simp add: relay_world_def)
  have rcpt: "rcpt_tos to_x = ''x@relay.example'' # []"
    by (simp add: to_x_def)
  have found: "GenEmail_get_by_email (session relay_world) (str_lower relay_env ''x@relay.example'') = Some alias_x"
    by code_simp
  have mbox: "mailbox_email_of (session relay_world) alias_x = Some ''john@home.example''"
    by code_simp
  have from1: "get_header relay_env bob_msg ''From'' = Some ''Bob <bob@shop.example>''"
    by code_simp
  have from2: "get_header relay_env bob_msg' ''From'' = Some ''Robert <bob@shop.example>''"
    by code_simp
  have c1: "get_email_part relay_env ''Bob <bob@shop.example>'' = ''bob@shop.example''"
    by code_simp
  have c2: "get_email_part relay_env ''Robert <bob@shop.example>'' = ''bob@shop.example''"
    by code_simp
  have r1: "?r1 = (fst ?r1, fst (snd ?r1), snd (snd ?r1))"
    by simp
  have r2: "?r2 = (fst ?r2, fst (snd ?r2), snd (snd ?r2))"
    by simp
  note T = two_forwards_one_mapping[OF inv clean rcpt rcpt found found mbox from1 from2 c1 c2 r1 r2]
  have a: "length (filter (\<lambda>x. gen_email_id x = ge_id alias_x \<and> website_email x = ''bob@shop.example'')
            (forward_emails (session after_bob'))) = 1
   \<and> map reply_email (forward_emails (session after_bob'))
       = map reply_email (forward_emails (session after_bob))
   \<and> mapping_inv (session after_bob) \<and> mapping_inv (session after_bob')"
    using T unfolding after_bob_def after_bob'_def by simp
  have b: "map (\<lambda>x. (website_email x, website_from x, reply_email x)) (forward_emails (session after_bob))
       = [(''jane@biz.example'', ''Jane <jane@biz.example>'', ''abcd1234@relay.example''),
          (''bob@shop.example'', ''Bob <bob@shop.example>'',
           ''reply+aaaaaaaaaaaaaaaaaaaaaaaaaaaaaa@relay.example'')]"
    by code_simp
  have c: "map (\<lambda>x. (website_email x, website_from x, reply_email x)) (forward_emails (session after_bob'))
       = [(''jane@biz.example'', ''Jane <jane@biz.example>'', ''abcd1234@relay.example''),
          (''bob@shop.example'', ''Robert <bob@shop.example>'',
           ''reply+aaaaaaaaaaaaaaaaaaaaaaaaaaaaaa@relay.example'')]"
    by code_simp
  from a b c show ?thesis by simp
qed

text \<open>
  C2. John's reply to Bob, whose body quotes the reply address, goes through the entry
  point to the reply handler and reaches the transport: the handler returns 250 and
  makes one \<open>sendmail\<close> call, from the alias to Bob, after the call of the forward
  that the world already held. The raw message of that call still holds the reply
  address, although replacing it by the alias would remove it: the source computes
  the replacement and drops it (\<open>reply_send\<close> hands \<open>as_string cfg msg\<close> itself to the
  transport, whatever the message).
\<close>

theorem reply_address_left_in_raw_message:
  "(case handle_DATA relay_env reply_john after_bob of
      (out, w) \<Rightarrow>
        (out, length (smtp_log w),
         map (\<lambda>c. (from_addr c, to_addr c,
                    contains (raw c) bob_token,
                    contains (str_replace (raw c) bob_token ''x@relay.example'') bob_token))
           (drop 1 (smtp_log w))))
   = (Returned ''250 Message accepted for delivery'', 2,
      [(''x@relay.example'', ''bob@shop.example'', True, False)])"
  by code_simp

lemma sample_reply_email_step:
  assumes "ForwardEmail_get_by_reply_email db
             (''reply+'' @ random_string cfg 30 k @ ''@'' @ EMAIL_DOMAIN cfg) \<noteq> None"
  shows "sample_reply_email cfg db (Suc n) k s =
           sample_reply_email cfg db n (Suc k)
             (''reply+'' @ random_string cfg 30 k @ ''@'' @ EMAIL_DOMAIN cfg)"
proof -
  from assms have "(ForwardEmail_get_by_reply_email db
             (''reply+'' @ random_string cfg 30 k @ ''@'' @ EMAIL_DOMAIN cfg) = None) = False"
    by blast
  then show ?thesis
    by (subst sample_reply_email.simps(2)) (simp only: Let_def if_False)
qed

lemma sample_reply_email_exhausted:
  assumes "\<forall>k. ForwardEmail_get_by_reply_email db
                 (''reply+'' @ random_string cfg 30 k @ ''@'' @ EMAIL_DOMAIN cfg) \<noteq> None"
  shows "sample_reply_email cfg db (Suc n) k s =
           (''reply+'' @ random_string cfg 30 (k + n) @ ''@'' @ EMAIL_DOMAIN cfg, k + Suc n)"
proof (induction n arbitrary: k s)
  case 0
  from assms have "ForwardEmail_get_by_reply_email db
       (''reply+'' @ random_string cfg 30 k @ ''@'' @ EMAIL_DOMAIN cfg) \<noteq> None"
    by blast
  from sample_reply_email_step[OF this, of 0 s] show ?case
    by (simp only: sample_reply_email.simps(1) add_0_right Nat.add_Suc_right)
next
  case (Suc n)
  from assms have "ForwardEmail_get_by_reply_email db
       (''reply+'' @ random_string cfg 30 k @ ''@'' @ EMAIL_DOMAIN cfg) \<noteq> None"
    by blast
  from sample_reply_email_step[OF this, of "Suc n" s] Suc.IH[of "Suc k"] show ?case
    by (simp only: Nat.add_Suc_right Nat.add_Suc)
qed

text \<open>
  C7. When every one of the 1000 sampled reply addresses is already taken, the loop
  ends with the last sample still bound, and the handler creates the mapping under
  it. Here Bob's mapping holds the address the random source keeps drawing; the
  forward of Carol's message draws 1000 times, returns 250 and leaves two mappings
  with the same reply address. No fault is raised and no temporary rejection is
  returned. Whatever the store and the random source, a loop whose every sample is
  taken returns its last sample (\<open>sample_reply_email_exhausted\<close>).
\<close>

theorem exhausted_sampling_reuses_reply_address:
  "map reply_email (forward_emails (session after_bob))
     = [''abcd1234@relay.example'', ''reply+aaaaaaaaaaaaaaaaaaaaaaaaaaaaaa@relay.example'']
   \<and> (case handle_forward relay_env to_x carol_msg after_bob of
         (out, msg, w) \<Rightarrow> (out, map reply_email (forward_emails (session w)), draws w))
       = (Returned ''250 Message accepted for delivery'',
          [''abcd1234@relay.example'', ''reply+aaaaaaaaaaaaaaaaaaaaaaaaaaaaaa@relay.example'',
           ''reply+aaaaaaaaaaaaaaaaaaaaaaaaaaaaaa@relay.example''],
          1001)"
  by code_simp

lemma reply_send_rcpt:
  "reply_send cfg (envelope\<lparr>rcpt_tos := rs\<rparr>) fe a r m w = reply_send cfg envelope fe a r m w"
  by (simp add: reply_send_def)

lemma reply_to_mapping_rcpt:
  "reply_to_mapping cfg (envelope\<lparr>rcpt_tos := rs\<rparr>) m a fe w
     = reply_to_mapping cfg envelope m a fe w"
  unfolding reply_to_mapping_def Let_def
  by (simp add: reply_send_rcpt cong: option.case_cong prod.case_cong if_cong)

lemma handle_reply_rcpt:
  "handle_reply cfg (envelope\<lparr>rcpt_tos := rcpt # rest\<rparr>) m w
     = handle_reply cfg (envelope\<lparr>rcpt_tos := [rcpt]\<rparr>) m w"
  by (simp add: handle_reply_def Let_def reply_to_mapping_rcpt split: option.splits)

lemma forward_to_alias_rcpt:
  "forward_to_alias cfg (envelope\<lparr>rcpt_tos := rs\<rparr>) m g w = forward_to_alias cfg envelope m g w"
proof (cases "mailbox_email_of (session w) g")
  case None
  then show ?thesis by (simp add: forward_to_alias_def)
next
  case (Some mailbox_email)
  note mbox = this
  show ?thesis
  proof (cases "get_header cfg m ''From''")
    case None
    with mbox show ?thesis by (simp add: forward_to_alias_def)
  next
    case (Some f)
    obtain r m' where t: "forward_transform cfg g
              (fst (get_or_create_forward_email cfg g (get_email_part cfg f) f w))
              (get_email_part cfg f) m = (r, m')"
      by (cases "forward_transform cfg g
              (fst (get_or_create_forward_email cfg g (get_email_part cfg f) f w))
              (get_email_part cfg f) m")
    show ?thesis
      unfolding forward_to_alias_unfold[OF mbox Some t] by simp
  qed
qed

lemma handle_forward_rcpt:
  "handle_forward cfg (envelope\<lparr>rcpt_tos := rcpt # rest\<rparr>) m w
     = handle_forward cfg (envelope\<lparr>rcpt_tos := [rcpt]\<rparr>) m w"
proof -
  obtain r w1 where a: "resolve_alias cfg (str_lower cfg rcpt) w = (r, w1)"
    by (cases "resolve_alias cfg (str_lower cfg rcpt) w")
  show ?thesis
  proof (cases r)
    case (Inl e)
    with a show ?thesis by (simp add: handle_forward_def)
  next
    case (Inr og)
    with a show ?thesis
      by (cases og) (simp_all add: handle_forward_def forward_to_alias_rcpt)
  qed
qed

text \<open>
  C9. The entry point reads the first recipient only and never looks at the length of
  the list: an envelope with further recipients is processed exactly as the envelope
  with the first recipient alone.
\<close>

theorem only_first_recipient_used:
  "handle_DATA cfg (envelope\<lparr>rcpt_tos := rcpt # rest\<rparr>) w
     = handle_DATA cfg (envelope\<lparr>rcpt_tos := [rcpt]\<rparr>) w"
  by (simp add: handle_DATA_def Let_def handle_reply_rcpt[where rest = rest]
        handle_forward_rcpt[where rest = rest])

theorem only_first_recipient_used_witness:
  "handle_DATA relay_env (to_x\<lparr>rcpt_tos := ''x@relay.example'' # [''off@relay.example'']\<rparr>) relay_world
     = handle_DATA relay_env (to_x\<lparr>rcpt_tos := [''x@relay.example'']\<rparr>) relay_world"
  using only_first_recipient_used[where cfg = relay_env and envelope = to_x
          and rcpt = "''x@relay.example''" and rest = "[''off@relay.example'']"
          and w = relay_world]
  by simp

text \<open>An envelope for two aliases is answered and delivered as the envelope for the
  first one alone: nothing is looked up, logged or sent for the second.\<close>

theorem second_recipient_ignored_counterexample:
  "(case (handle_DATA relay_env to_x_and_off relay_world, handle_DATA relay_env to_x relay_world) of
      ((out, w), single) \<Rightarrow>
        (rcpt_tos to_x_and_off, (out, w) = single, out, map to_addr (smtp_log w),
         map forward_id (forward_email_logs (committed w))))
   = ([''x@relay.example'', ''off@relay.example''], True,
      Returned ''250 Message accepted for delivery'', [''john@home.example''], [1])"
  by code_simp

lemma replace_header_error:
  "replace_header cfg m n v = Inl e \<Longrightarrow> e = KeyError \<or> e = ValueError"
  by (auto simp: replace_header_def split: option.splits if_splits)

text \<open>The signing step of a reply reads \<open>dkim_verified\<close> of a missing record only for
  an alias that the address helper accepts although the part after its first \<open>@\<close> is
  not among the alias domains.\<close>

lemma reply_transform_finds_domain:
  assumes "email_belongs_to_alias_domains cfg a \<longrightarrow> after_first_at a \<in> set (ALIAS_DOMAINS cfg)"
    and "email_belongs_to_alias_domains cfg a
         \<or> CustomDomain_get_by_domain db (after_first_at a) \<noteq> None"
  shows "fst (reply_transform cfg db fe a (after_first_at a) m) \<noteq> Some (AttributeError ''dkim_verified'')"
  using assms
  by (auto simp: reply_transform_def Let_def split: sum.splits option.splits
        dest: replace_header_error)


lemma reply_transform_same:
  assumes "custom_domains db1 = custom_domains db2"
    and "mapping_data fe1 = mapping_data fe2"
  shows "reply_transform cfg db1 fe1 a d m = reply_transform cfg db2 fe2 a d m"
proof -
  from assms(2) have a: "website_email fe1 = website_email fe2"
    "gen_email_id fe1 = gen_email_id fe2"
    by (simp_all add: mapping_data_def)
  have b: "CustomDomain_get_by_domain db1 d = CustomDomain_get_by_domain db2 d"
    using assms(1) by (simp add: CustomDomain_get_by_domain_def)
  show ?thesis
    unfolding reply_transform_def a b by (rule refl)
qed

lemma reply_send_same:
  assumes w: "same_but_tokens w1 w2"
    and fe: "mapping_data fe1 = mapping_data fe2"
  shows "fst (reply_send cfg e fe1 a r1 m w1) = fst (reply_send cfg e fe2 a r2 m w2)
       \<and> fst (snd (reply_send cfg e fe1 a r1 m w1)) = fst (snd (reply_send cfg e fe2 a r2 m w2))
       \<and> same_but_tokens (snd (snd (reply_send cfg e fe1 a r1 m w1)))
                          (snd (snd (reply_send cfg e fe2 a r2 m w2)))"
  using w fe
  by (simp add: reply_send_def Let_def commit_def ForwardEmailLog_create_def
        same_but_tokens_def same_but_tokens_db_def mapping_data_def)

lemma notify_unauthorised_same:
  assumes "same_but_tokens w1 w2"
  shows "same_but_tokens (notify_unauthorised cfg w1 usr a s mb r1)
                         (notify_unauthorised cfg w2 usr a s mb r2)"
  using assms
  by (simp add: same_but_tokens_def notify_unauthorised_outbox notify_unauthorised_rest)

lemma reply_to_mapping_same:
  assumes w: "same_but_tokens w1 w2"
    and fe: "mapping_data fe1 = mapping_data fe2"
  shows "fst (reply_to_mapping cfg e m r1 fe1 w1) = fst (reply_to_mapping cfg e m r2 fe2 w2)
       \<and> fst (snd (reply_to_mapping cfg e m r1 fe1 w1))
           = fst (snd (reply_to_mapping cfg e m r2 fe2 w2))
       \<and> same_but_tokens (snd (snd (reply_to_mapping cfg e m r1 fe1 w1)))
                          (snd (snd (reply_to_mapping cfg e m r2 fe2 w2)))"
proof -
  from w have db: "same_but_tokens_db (session w1) (session w2)"
    by (simp add: same_but_tokens_def)
  have id: "gen_email_id fe1 = gen_email_id fe2"
    using fe by (simp add: mapping_data_def)
  have ge: "GenEmail_get (session w1) i = GenEmail_get (session w2) i" for i
    using db by (simp add: GenEmail_get_def same_but_tokens_db_def)
  have cd: "CustomDomain_get_by_domain (session w1) d = CustomDomain_get_by_domain (session w2) d" for d
    using db by (simp add: CustomDomain_get_by_domain_def same_but_tokens_db_def)
  have us: "User_get (session w1) i = User_get (session w2) i" for i
    using db by (simp add: User_get_def same_but_tokens_db_def)
  have mb: "mailbox_email_of (session w1) g = mailbox_email_of (session w2) g" for g
    using db
    by (simp add: mailbox_email_of_def User_get_def Mailbox_get_def same_but_tokens_db_def
          split: option.splits)
  have tr: "reply_transform cfg (session w1) fe1 a d m = reply_transform cfg (session w2) fe2 a d m"
    for a d
    using db fe by (intro reply_transform_same) (simp_all add: same_but_tokens_db_def)
  show ?thesis
  proof (cases "GenEmail_get (session w2) (gen_email_id fe2)")
    case None
    with w show ?thesis
      by (simp add: reply_to_mapping_def ge id)
  next
    case (Some g)
    note g = this
    show ?thesis
    proof (cases "\<not> email_belongs_to_alias_domains cfg (ge_email g) \<and>
                  CustomDomain_get_by_domain (session w2) (after_first_at (ge_email g)) = None")
      case True
      with g w show ?thesis
        by (simp add: reply_to_mapping_def ge id cd Let_def)
    next
      case False
      then have known: "(\<not> email_belongs_to_alias_domains cfg (ge_email g) \<and>
                  CustomDomain_get_by_domain (session w2) (after_first_at (ge_email g)) = None)
                 = False"
        by blast
      show ?thesis
      proof (cases "mailbox_email_of (session w2) g")
        case None
        with g w show ?thesis
          by (simp add: reply_to_mapping_def known ge id cd mb Let_def)
      next
        case (Some mailbox_email)
        note box = this
        show ?thesis
        proof (cases "str_lower cfg (mail_from e) \<noteq> str_lower cfg mailbox_email")
          case True
          note ne = this
          show ?thesis
          proof (cases "User_get (session w2) (ge_user_id g)")
            case None
            with g box ne w show ?thesis
              by (simp add: reply_to_mapping_def known ge id cd mb us Let_def)
          next
            case (Some usr)
            with g box ne
              notify_unauthorised_same[OF w, of cfg usr "ge_email g" "mail_from e" mailbox_email r1 r2]
            show ?thesis
              by (simp add: reply_to_mapping_def known ge id cd mb us Let_def)
          qed
        next
          case False
          note eq = this
          obtain r m' where t: "reply_transform cfg (session w2) fe2 (ge_email g)
                                  (after_first_at (ge_email g)) m = (r, m')"
            by (cases "reply_transform cfg (session w2) fe2 (ge_email g)
                         (after_first_at (ge_email g)) m")
          show ?thesis
          proof (cases r)
            case (Some err)
            with g box eq t w show ?thesis
              by (simp add: reply_to_mapping_def known ge id cd mb tr Let_def)
          next
            case None
            with g box eq t
              reply_send_same[OF w fe, of cfg e "ge_email g" r1 m' r2]
            show ?thesis
              by (simp add: reply_to_mapping_def known ge id cd mb tr Let_def)
          qed
        qed
      qed
    qed
  qed
qed

lemma teardown_same:
  "same_but_tokens w1 w2 \<Longrightarrow> same_but_tokens (teardown w1) (teardown w2)"
  by (simp add: same_but_tokens_def teardown_def)

text \<open>
  C8. The handler is chosen by the first recipient alone, lower-cased as the entry
  point does before it looks at it: when that address begins with \<open>reply+\<close> or with
  \<open>ra+\<close> the envelope goes to the reply handler, otherwise to the forward handler.
  The reply handler treats the two prefixes alike. Take two envelopes that differ in
  their recipients only, the first recipient of one beginning with \<open>reply+\<close> and that
  of the other with \<open>ra+\<close>, and two worlds that differ in the reply addresses of
  their mappings only; let the two recipients pass the domain test alike, and be the
  reply addresses of mappings that are the same row but for the reply address (or of
  no mapping, both). Then the two envelopes get the same status, and the worlds they
  leave differ again in the reply addresses of the mappings only: the same rows are
  written, the same transport calls are made, and notifications go to the same
  recipients.
\<close>

theorem reply_prefixes_honoured_alike:
  assumes conn: "smtp_connects cfg"
    and rcpt: "rcpt_tos e = r # rest"
    and rcpt1: "rcpt_tos e1 = r1 # rest1"
    and rcpt2: "rcpt_tos e2 = r2 # rest2"
    and same_envelope: "e2 = e1\<lparr>rcpt_tos := rcpt_tos e2\<rparr>"
    and p1: "prefix ''reply+'' (str_lower cfg r1)"
    and p2: "prefix ''ra+'' (str_lower cfg r2)"
    and dom: "suffix (EMAIL_DOMAIN cfg) (str_lower cfg r1)
                = suffix (EMAIL_DOMAIN cfg) (str_lower cfg r2)"
    and worlds: "same_but_tokens w1 w2"
    and look: "map_option mapping_data
                 (ForwardEmail_get_by_reply_email (session w1) (str_lower cfg r1))
               = map_option mapping_data
                   (ForwardEmail_get_by_reply_email (session w2) (str_lower cfg r2))"
  shows "handle_DATA cfg e w =
           (if prefix ''reply+'' (str_lower cfg r) \<or> prefix ''ra+'' (str_lower cfg r)
            then with_app_context (handle_reply cfg e (parsestr cfg (content e)) w)
            else with_app_context (handle_forward cfg e (parsestr cfg (content e)) w))
       \<and> fst (handle_DATA cfg e1 w1) = fst (handle_DATA cfg e2 w2)
       \<and> same_but_tokens (snd (handle_DATA cfg e1 w1)) (snd (handle_DATA cfg e2 w2))"
proof -
  let ?m = "parsestr cfg (content e1)"
  have route: "handle_DATA cfg e w =
           (if prefix ''reply+'' (str_lower cfg r) \<or> prefix ''ra+'' (str_lower cfg r)
            then with_app_context (handle_reply cfg e (parsestr cfg (content e)) w)
            else with_app_context (handle_forward cfg e (parsestr cfg (content e)) w))"
    using conn rcpt by (simp add: handle_DATA_def Let_def)
  have c: "content e2 = content e1"
    by (subst same_envelope) simp
  have d1: "handle_DATA cfg e1 w1 = with_app_context (handle_reply cfg e1 ?m w1)"
    using conn rcpt1 p1 by (simp add: handle_DATA_def Let_def)
  have d2: "handle_DATA cfg e2 w2 = with_app_context (handle_reply cfg e2 ?m w2)"
    using conn rcpt2 p2 c by (simp add: handle_DATA_def Let_def)
  have e2: "reply_to_mapping cfg e2 ?m a fe w2 = reply_to_mapping cfg e1 ?m a fe w2" for a fe
    by (subst same_envelope) (rule reply_to_mapping_rcpt)
  let ?h1 = "handle_reply cfg e1 ?m w1"
  let ?h2 = "handle_reply cfg e2 ?m w2"
  have "fst ?h1 = fst ?h2 \<and> same_but_tokens (snd (snd ?h1)) (snd (snd ?h2))"
  proof (cases "suffix (EMAIL_DOMAIN cfg) (str_lower cfg r2)")
    case False
    with dom rcpt1 rcpt2 worlds show ?thesis
      by (simp add: handle_reply_def Let_def)
  next
    case True
    note ok = this
    show ?thesis
    proof (cases "ForwardEmail_get_by_reply_email (session w2) (str_lower cfg r2)")
      case None
      moreover from None look
      have "ForwardEmail_get_by_reply_email (session w1) (str_lower cfg r1) = None"
        by simp
      ultimately show ?thesis
        using ok dom rcpt1 rcpt2 worlds by (simp add: handle_reply_def Let_def)
    next
      case (Some fe2)
      with look obtain fe1
        where fe1: "ForwardEmail_get_by_reply_email (session w1) (str_lower cfg r1) = Some fe1"
          and fe: "mapping_data fe1 = mapping_data fe2"
        by (cases "ForwardEmail_get_by_reply_email (session w1) (str_lower cfg r1)") auto
      from reply_to_mapping_same[OF worlds fe, of cfg e1 ?m "str_lower cfg r1" "str_lower cfg r2"]
      show ?thesis
        using ok dom rcpt1 rcpt2 Some fe1 by (simp add: handle_reply_def Let_def e2)
    qed
  qed
  then have "fst (handle_DATA cfg e1 w1) = fst (handle_DATA cfg e2 w2)
       \<and> same_but_tokens (snd (handle_DATA cfg e1 w1)) (snd (handle_DATA cfg e2 w2))"
    unfolding d1 d2 by (simp add: with_app_context_def teardown_same)
  with route show ?thesis by simp
qed

lemma ra_world_facts:
  "session ra_world = retoken bob_db" "committed ra_world = retoken bob_db"
  "outbox ra_world = outbox after_bob" "smtp_log ra_world = smtp_log after_bob"
  "draws ra_world = draws after_bob"
  by (simp_all add: ra_world_def after_bob_facts)

theorem reply_prefixes_honoured_alike_witness:
  "handle_DATA relay_env to_x relay_world
     = with_app_context (handle_forward relay_env to_x (parsestr relay_env (content to_x)) relay_world)
   \<and> fst (handle_DATA relay_env reply_john_ra ra_world)
       = Returned ''250 Message accepted for delivery''
   \<and> same_but_tokens (snd (handle_DATA relay_env reply_john after_bob))
                      (snd (handle_DATA relay_env reply_john_ra ra_world))"
proof -
  have conn: "smtp_connects relay_env"
    by (simp add: relay_env_def)
  have h0: "rcpt_tos to_x = ''x@relay.example'' # []"
    by (simp add: to_x_def)
  have h1: "rcpt_tos reply_john = bob_token # []"
    by (simp add: reply_john_def)
  have h2: "rcpt_tos reply_john_ra = ra_token # []"
    by (simp add: reply_john_ra_def reply_john_def)
  have h3: "reply_john_ra = reply_john\<lparr>rcpt_tos := rcpt_tos reply_john_ra\<rparr>"
    by (simp add: reply_john_ra_def)
  have p1: "prefix ''reply+'' (str_lower relay_env bob_token)"
    by code_simp
  have p2: "prefix ''ra+'' (str_lower relay_env ra_token)"
    by code_simp
  have dom: "suffix (EMAIL_DOMAIN relay_env) (str_lower relay_env bob_token)
               = suffix (EMAIL_DOMAIN relay_env) (str_lower relay_env ra_token)"
    by code_simp
  have "same_but_tokens_db bob_db (retoken bob_db)"
    by code_simp
  then have worlds: "same_but_tokens after_bob ra_world"
    by (simp add: same_but_tokens_def after_bob_facts ra_world_facts)
  have look: "map_option mapping_data
                (ForwardEmail_get_by_reply_email (session after_bob) (str_lower relay_env bob_token))
              = map_option mapping_data
                  (ForwardEmail_get_by_reply_email (session ra_world) (str_lower relay_env ra_token))"
    unfolding after_bob_facts ra_world_facts by code_simp
  have fwd: "\<not> (prefix ''reply+'' (str_lower relay_env ''x@relay.example'')
                 \<or> prefix ''ra+'' (str_lower relay_env ''x@relay.example''))"
    by code_simp
  have out: "fst (handle_DATA relay_env reply_john after_bob)
               = Returned ''250 Message accepted for delivery''"
    by code_simp
  from reply_prefixes_honoured_alike[OF conn h0 h1 h2 h3 p1 p2 dom worlds look, of relay_world]
    fwd out
  show ?thesis by simp
qed

text \<open>A recipient that begins with neither prefix as it is written, Bob's reply address
  in capitals, is handled as a reply all the same: the reply is delivered to Bob from
  the alias. An envelope of the forward handler for that recipient would be answered
  510.\<close>

theorem capital_prefix_counterexample:
  "(rcpt_tos reply_john_capitals,
    map (\<lambda>p. prefix p (hd (rcpt_tos reply_john_capitals))) [''reply+'', ''ra+''],
    case handle_DATA relay_env reply_john_capitals after_bob of
      (out, w) \<Rightarrow> (out, map (\<lambda>c. (from_addr c, to_addr c)) (drop 1 (smtp_log w))),
    fst (handle_forward relay_env reply_john_capitals john_reply relay_world))
   = ([''REPLY+AAAAAAAAAAAAAAAAAAAAAAAAAAAAAA@relay.example''], [False, False],
      (Returned ''250 Message accepted for delivery'', [(''x@relay.example'', ''bob@shop.example'')]),
      Returned ''510 Email not exist'')"
  by code_simp

end
